theory Spec2Isabelle
  imports Complex_Main "HOL-Library.Word"
begin

unbundle bit_operations_syntax

section \<open>The Zelda64 sequence volume editor\<close>

text \<open>
  The repository holds two versions of the same script.  The older one
  (\<^verbatim>\<open>Zelda64_Seqvol_Editor.py\<close>, version 2025.02.05) writes its functions in upper case
  (\<^verbatim>\<open>PARSE_SEQ\<close>, \<^verbatim>\<open>GET_MSG_STRING\<close>, \<^verbatim>\<open>READ_U8\<close>, ...) and decodes with one long
  \<^verbatim>\<open>if\<close>/\<^verbatim>\<open>elif\<close> chain; the newer one (version 2025.04.24) writes them in lower case
  (\<^verbatim>\<open>parse_seq\<close>, \<^verbatim>\<open>get_msg_string\<close>, \<^verbatim>\<open>read_u8\<close>, ...) and decodes through the
  dictionary \<^verbatim>\<open>SEQ_MESSAGES\<close>.  Both are embedded here, each under the names of its
  source, so an upper-case constant is the older script and a lower-case one the newer.
\<close>

subsection \<open>Bytes, the file object and \<^verbatim>\<open>struct.unpack\<close>\<close>

type_synonym byte = "8 word"

datatype SeqVersion = OOT | MM

datatype error = StructError | TypeError | AttributeError | OverflowError

text \<open>
  The sequence is a binary file opened with mode \<^verbatim>\<open>r+b\<close>: its bytes and the position
  of the handle.  \<^verbatim>\<open>read\<close> returns at most \<open>n\<close> bytes and moves the position past what
  it returned (nothing at or after the end of the file); \<^verbatim>\<open>write\<close> overwrites in place,
  and extends the file (zero-filling a gap) only where it writes past the end.
\<close>

record seqfile =
  content :: "byte list"
  position :: nat

definition open_file :: "byte list \<Rightarrow> seqfile" where
  "open_file bs = \<lparr>content = bs, position = 0\<rparr>"

definition seq_seek :: "seqfile \<Rightarrow> nat \<Rightarrow> seqfile" where
  "seq_seek f a = f\<lparr>position := a\<rparr>"

definition seq_tell :: "seqfile \<Rightarrow> nat" where
  "seq_tell f = position f"

definition seq_read :: "seqfile \<Rightarrow> nat \<Rightarrow> byte list \<times> seqfile" where
  "seq_read f n =
     (let bs = take n (drop (position f) (content f))
      in (bs, f\<lparr>position := position f + length bs\<rparr>))"

definition seq_write :: "seqfile \<Rightarrow> byte list \<Rightarrow> seqfile" where
  "seq_write f bs =
     (let c = position f; d = content f
      in if bs = [] then f
         else if c \<le> length d
           then \<lparr>content = take c d @ bs @ drop (c + length bs) d, position = c + length bs\<rparr>
           else \<lparr>content = d @ replicate (c - length d) 0 @ bs, position = c + length bs\<rparr>)"

text \<open>
  \<^verbatim>\<open>struct.unpack\<close> with a big-endian format of \<^verbatim>\<open>B\<close> (one byte) and \<^verbatim>\<open>H\<close> (two bytes,
  unsigned) fields.  It raises \<^verbatim>\<open>struct.error\<close> unless the buffer has exactly the size
  of the format.
\<close>

datatype field = B | H

fun unpack_fields :: "field list \<Rightarrow> byte list \<Rightarrow> nat list option" where
  "unpack_fields [] [] = Some []"
| "unpack_fields (B # fs) (a # bs) = map_option ((#) (unat a)) (unpack_fields fs bs)"
| "unpack_fields (H # fs) (h # l # bs) =
     map_option ((#) (256 * unat h + unat l)) (unpack_fields fs bs)"
| "unpack_fields _ _ = None"

definition struct_unpack :: "field list \<Rightarrow> byte list \<Rightarrow> error + nat list" where
  "struct_unpack fmt bs =
     (case unpack_fields fmt bs of None \<Rightarrow> Inl StructError | Some vs \<Rightarrow> Inr vs)"

subsection \<open>String formatting\<close>

text \<open>
  \<^verbatim>\<open>hex(n)[2:]\<close> is \<open>hex_lower n\<close>; the format specification \<^verbatim>\<open>04X\<close> or \<^verbatim>\<open>02X\<close> is
  \<open>format_X w n\<close>; \<^verbatim>\<open>str.upper\<close>, \<^verbatim>\<open>str.ljust\<close> and the slice \<^verbatim>\<open>[-5:]\<close> follow.
\<close>

definition hex_digit :: "nat \<Rightarrow> char" where
  "hex_digit d = ''0123456789abcdef'' ! d"

definition HEX_digit :: "nat \<Rightarrow> char" where
  "HEX_digit d = ''0123456789ABCDEF'' ! d"

definition HEX_DIGITS :: "char set" where
  "HEX_DIGITS = set ''0123456789ABCDEF''"

fun hex_lower :: "nat \<Rightarrow> string" where
  "hex_lower n = (if n < 16 then [hex_digit n] else hex_lower (n div 16) @ [hex_digit (n mod 16)])"

fun hex_upper :: "nat \<Rightarrow> string" where
  "hex_upper n = (if n < 16 then [HEX_digit n] else hex_upper (n div 16) @ [HEX_digit (n mod 16)])"

declare hex_lower.simps [simp del] hex_upper.simps [simp del]

definition format_X :: "nat \<Rightarrow> nat \<Rightarrow> string" where
  "format_X w n = (let s = hex_upper n in replicate (w - length s) (CHR ''0'') @ s)"

definition upper_char :: "char \<Rightarrow> char" where
  "upper_char c =
     (case map_of (zip ''abcdefghijklmnopqrstuvwxyz'' ''ABCDEFGHIJKLMNOPQRSTUVWXYZ'') c of
        Some C \<Rightarrow> C
      | None \<Rightarrow> c)"

definition upper :: "string \<Rightarrow> string" where
  "upper s = map upper_char s"

definition ljust :: "nat \<Rightarrow> string \<Rightarrow> string" where
  "ljust w s = s @ replicate (w - length s) (CHR '' '')"

definition last_chars :: "nat \<Rightarrow> string \<Rightarrow> string" where
  "last_chars k s = drop (length s - k) s"

text \<open>The ANSI colours that the decoders put around a record.\<close>

definition YELLOW :: string where "YELLOW = CHR 0x1B # ''[33m''"
definition PINK_218 :: string where "PINK_218 = CHR 0x1B # ''[38;5;218m''"
definition RESET :: string where "RESET = CHR 0x1B # ''[0m''"

text \<open>
  The address part of \<^verbatim>\<open>GET_MSG_STRING\<close> of the older script, before the \<^verbatim>\<open>.upper()\<close>
  that the function applies to the whole string it returns.
\<close>

definition HEX_ADDR :: "nat \<Rightarrow> string" where
  "HEX_ADDR addr =
     (if 0x1000 \<le> addr then ''@'' @ hex_lower addr
      else if 0x100 \<le> addr \<and> addr \<le> 0xFFF then ''@0'' @ hex_lower addr
      else if 0x10 \<le> addr \<and> addr \<le> 0xFF then ''@00'' @ hex_lower addr
      else ''@000'' @ hex_lower addr)"

text \<open>
  \<^verbatim>\<open>GET_MSG_STRING(addr, msg, *args)\<close>.  With more than two arguments the source falls
  off its last \<^verbatim>\<open>elif\<close> and returns \<^verbatim>\<open>None\<close>, which the caller's f-string prints as
  \<^verbatim>\<open>None\<close>; no caller passes more than two.
\<close>

definition GET_MSG_STRING :: "nat \<Rightarrow> nat \<Rightarrow> nat list \<Rightarrow> string" where
  "GET_MSG_STRING addr msg args =
     (let hex_addr = HEX_ADDR addr;
          hex_msg = (if msg < 0x10 then ''0'' @ hex_lower msg else hex_lower msg);
          hex_args = map hex_lower args
      in if length args < 1 then upper (hex_addr @ '': '' @ hex_msg)
         else if length args = 1 then upper (hex_addr @ '': '' @ hex_msg @ '' '' @ hex_args ! 0)
         else if length args = 2
           then upper (hex_addr @ '': '' @ hex_msg @ '' '' @ hex_args ! 0 @ '' '' @ hex_args ! 1)
         else ''None'')"

text \<open>The newer script: \<^verbatim>\<open>format_addr\<close>, \<^verbatim>\<open>format_args\<close> and \<^verbatim>\<open>get_msg_string\<close>.\<close>

definition format_addr :: "nat \<Rightarrow> string" where
  "format_addr addr = last_chars 5 (''@'' @ format_X 4 addr)"

datatype argsize = u8 | u16 | s16

fun join :: "string \<Rightarrow> string list \<Rightarrow> string" where
  "join sep [] = []"
| "join sep [s] = s"
| "join sep (s # t # ss) = s @ sep @ join sep (t # ss)"

definition format_args :: "(nat \<times> argsize) option list \<Rightarrow> string" where
  "format_args args =
     join '' '' (map (\<lambda>(val, sz). if sz = u16 \<or> sz = s16 then format_X 4 val else format_X 2 val)
                    (List.map_filter id args))"

definition get_msg_string :: "nat \<Rightarrow> nat option \<Rightarrow> (nat \<times> argsize) option list \<Rightarrow> string" where
  "get_msg_string addr msg args =
     (case msg of
        None \<Rightarrow> ''  unk_msg           @???? ?? ?? ??''
      | Some m \<Rightarrow>
          (let hex_addr = format_addr addr;
               hex_msg = format_X 2 m;
               hex_args = format_args args;
               spacing = (if hex_args \<noteq> [] then '' '' else [])
           in upper (hex_addr @ '': '' @ hex_msg @ spacing @ hex_args)))"

subsection \<open>The lists that a decoding pass fills\<close>

text \<open>
  Both scripts keep the decoded records and the addresses to patch in module-level lists,
  created empty when the module is loaded and only ever appended to.
\<close>

record globals =
  SEQ_HEADER_OUTPUT :: "string list"
  MSTR_VOL_ADDR :: "nat list"
  JUMP_ADDR :: "nat list"
  EQJUMP_ADDR :: "nat list"
  LTJUMP_ADDR :: "nat list"
  GTEQJUMP_ADDR :: "nat list"
  RJUMP_ADDR :: "nat list"
  REQJUMP_ADDR :: "nat list"
  RLTJUMP_ADDR :: "nat list"

definition module_globals :: globals where
  "module_globals =
     \<lparr>SEQ_HEADER_OUTPUT = [], MSTR_VOL_ADDR = [], JUMP_ADDR = [], EQJUMP_ADDR = [],
      LTJUMP_ADDR = [], GTEQJUMP_ADDR = [], RJUMP_ADDR = [], REQJUMP_ADDR = [],
      RLTJUMP_ADDR = []\<rparr>"

datatype addr_list = MSTR_VOL | JUMP | EQJUMP | LTJUMP | GTEQJUMP | RJUMP | REQJUMP | RLTJUMP

fun addr_list_append :: "addr_list \<Rightarrow> nat \<Rightarrow> globals \<Rightarrow> globals" where
  "addr_list_append MSTR_VOL a g = g\<lparr>MSTR_VOL_ADDR := MSTR_VOL_ADDR g @ [a]\<rparr>"
| "addr_list_append JUMP a g = g\<lparr>JUMP_ADDR := JUMP_ADDR g @ [a]\<rparr>"
| "addr_list_append EQJUMP a g = g\<lparr>EQJUMP_ADDR := EQJUMP_ADDR g @ [a]\<rparr>"
| "addr_list_append LTJUMP a g = g\<lparr>LTJUMP_ADDR := LTJUMP_ADDR g @ [a]\<rparr>"
| "addr_list_append GTEQJUMP a g = g\<lparr>GTEQJUMP_ADDR := GTEQJUMP_ADDR g @ [a]\<rparr>"
| "addr_list_append RJUMP a g = g\<lparr>RJUMP_ADDR := RJUMP_ADDR g @ [a]\<rparr>"
| "addr_list_append REQJUMP a g = g\<lparr>REQJUMP_ADDR := REQJUMP_ADDR g @ [a]\<rparr>"
| "addr_list_append RLTJUMP a g = g\<lparr>RLTJUMP_ADDR := RLTJUMP_ADDR g @ [a]\<rparr>"

definition output_append :: "string \<Rightarrow> globals \<Rightarrow> globals" where
  "output_append s g = g\<lparr>SEQ_HEADER_OUTPUT := SEQ_HEADER_OUTPUT g @ [s]\<rparr>"

text \<open>
  One turn of a decoding loop either goes on, leaves the loop at \<^verbatim>\<open>break\<close>, or raises;
  the state it leaves behind is kept in each case, since the lists and the file handle
  are shared with the rest of the program.
\<close>

datatype 'a step = Continue 'a | Break 'a | Raise error 'a

datatype status = Ended | Exhausted | Raised error

subsection \<open>The older script: readers\<close>

definition SEEK_ADDR :: "seqfile \<Rightarrow> nat \<Rightarrow> seqfile" where
  "SEEK_ADDR seq addr = seq_seek seq addr"

definition READ_MSG :: "seqfile \<Rightarrow> nat \<Rightarrow> (error + nat list) \<times> seqfile" where
  "READ_MSG seq offset =
     (let seq1 = SEEK_ADDR seq offset;
          (bs, seq2) = seq_read seq1 1
      in (case struct_unpack [B] bs of
            Inl e \<Rightarrow> Inl e
          | Inr data \<Rightarrow> Inr [data ! 0], seq2))"

definition READ_ARGVAR ::
  "seqfile \<Rightarrow> nat \<Rightarrow> nat \<Rightarrow> (error + nat list \<times> nat \<times> nat) \<times> seqfile" where
  "READ_ARGVAR seq offset arglen =
     (let seq1 = SEEK_ADDR seq offset;
          arg_addr = seq_tell seq1 + 1
      in if arglen AND 0x80 \<noteq> 0
         then (let (bs, seq2) = seq_read seq1 3
               in (case struct_unpack [B, H] bs of
                     Inl e \<Rightarrow> Inl e
                   | Inr data \<Rightarrow> Inr ([data ! 0, data ! 1], 3, arg_addr), seq2))
         else (let (bs, seq2) = seq_read seq1 2
               in (case struct_unpack [B, B] bs of
                     Inl e \<Rightarrow> Inl e
                   | Inr data \<Rightarrow> Inr ([data ! 0, data ! 1], 2, arg_addr), seq2)))"

definition READ_U8 :: "seqfile \<Rightarrow> nat \<Rightarrow> (error + nat list \<times> nat) \<times> seqfile" where
  "READ_U8 seq offset =
     (let seq1 = SEEK_ADDR seq offset;
          arg_addr = seq_tell seq1 + 1;
          (bs, seq2) = seq_read seq1 2
      in (case struct_unpack [B, B] bs of
            Inl e \<Rightarrow> Inl e
          | Inr data \<Rightarrow> Inr ([data ! 0, data ! 1], arg_addr), seq2))"

definition READ_U8x2 :: "seqfile \<Rightarrow> nat \<Rightarrow> (error + nat list \<times> nat \<times> nat) \<times> seqfile" where
  "READ_U8x2 seq offset =
     (let seq1 = SEEK_ADDR seq offset;
          arg_addr1 = seq_tell seq1 + 1;
          arg_addr2 = seq_tell seq1 + 2;
          (bs, seq2) = seq_read seq1 3
      in (case struct_unpack [B, B, B] bs of
            Inl e \<Rightarrow> Inl e
          | Inr data \<Rightarrow> Inr ([data ! 0, data ! 1, data ! 2], arg_addr1, arg_addr2), seq2))"

definition READ_U8_U16 :: "seqfile \<Rightarrow> nat \<Rightarrow> (error + nat list \<times> nat \<times> nat) \<times> seqfile" where
  "READ_U8_U16 seq offset =
     (let seq1 = SEEK_ADDR seq offset;
          arg_addr1 = seq_tell seq1 + 1;
          arg_addr2 = seq_tell seq1 + 2;
          (bs, seq2) = seq_read seq1 4
      in (case struct_unpack [B, B, H] bs of
            Inl e \<Rightarrow> Inl e
          | Inr data \<Rightarrow> Inr ([data ! 0, data ! 1, data ! 2], arg_addr1, arg_addr2), seq2))"

definition READ_U16 :: "seqfile \<Rightarrow> nat \<Rightarrow> (error + nat list \<times> nat) \<times> seqfile" where
  "READ_U16 seq offset =
     (let seq1 = SEEK_ADDR seq offset;
          arg_addr = seq_tell seq1 + 1;
          (bs, seq2) = seq_read seq1 3
      in (case struct_unpack [B, H] bs of
            Inl e \<Rightarrow> Inl e
          | Inr data \<Rightarrow> Inr ([data ! 0, data ! 1], arg_addr), seq2))"

definition READ_S16_U8 :: "seqfile \<Rightarrow> nat \<Rightarrow> (error + nat list \<times> nat \<times> nat) \<times> seqfile" where
  "READ_S16_U8 seq offset =
     (let seq1 = SEEK_ADDR seq offset;
          arg_addr1 = seq_tell seq1 + 1;
          arg_addr2 = seq_tell seq1 + 3;
          (bs, seq2) = seq_read seq1 4
      in (case struct_unpack [B, H, B] bs of
            Inl e \<Rightarrow> Inl e
          | Inr data \<Rightarrow> Inr ([data ! 0, data ! 1, data ! 2], arg_addr1, arg_addr2), seq2))"

text \<open>\<^verbatim>\<open>int.from_bytes(bs, byteorder='big', signed=False)\<close>; the empty string gives 0.\<close>

definition int_from_bytes :: "byte list \<Rightarrow> nat" where
  "int_from_bytes bs = foldl (\<lambda>a b. 256 * a + unat b) 0 bs"

subsection \<open>The older script: \<^verbatim>\<open>PARSE_SEQ\<close>\<close>

text \<open>
  \<^verbatim>\<open>PARSE_SEQ\<close> is one \<^verbatim>\<open>if\<close>/\<^verbatim>\<open>elif\<close> chain on the byte at \<^verbatim>\<open>pos\<close>, and every
  branch has the same shape: take the address, call one reader, format the record with
  \<^verbatim>\<open>GET_MSG_STRING\<close>, append it to \<^verbatim>\<open>SEQ_HEADER_OUTPUT\<close>, perhaps append an address
  to one of the other lists, and add a constant to \<^verbatim>\<open>pos\<close>.  The chain is written here as
  the list of its branches, in the order of the source, and the first branch whose
  condition holds is taken.  A branch is: the bounds of its condition on the byte
  (equal for \<^verbatim>\<open>byte == b'\xNN'\<close>), the game it asks for if any, its reader, the text
  before and after the formatted record, the list it appends to with the address it
  appends (of the opcode or of the argument), and the constant added to \<^verbatim>\<open>pos\<close>.

  The kinds that are not just a reader: \<open>K_END\<close> reads with \<^verbatim>\<open>READ_MSG\<close> and leaves the
  loop; \<open>K_ARGVAR\<close> adds to \<^verbatim>\<open>pos\<close> the length that \<^verbatim>\<open>READ_ARGVAR\<close> reports; \<open>K_FADE\<close>
  reads with \<^verbatim>\<open>READ_U8_U16\<close> and passes only the two arguments to \<^verbatim>\<open>GET_MSG_STRING\<close>;
  \<open>K_UNK\<close> reads nothing and appends its text as it is.
\<close>

datatype KIND =
  K_END | K_MSG | K_ARGVAR | K_U8 | K_U8x2 | K_U8_U16 | K_FADE | K_U16 | K_S16_U8 | K_UNK

datatype WHICH = Opcode_addr | Arg_addr

datatype BRANCH =
  Branch (b_lo: byte) (b_hi: byte) (b_gate: "SeqVersion option") (b_kind: KIND)
    (b_prefix: string) (b_suffix: string) (b_collect: "(addr_list \<times> WHICH) option")
    (b_advance: "nat option")

definition BRANCHES :: "BRANCH list" where
  "BRANCHES =
    [Branch 0xFF 0xFF None K_END ''  end             '' [] None None,
     Branch 0xFE 0xFE None K_MSG ''  delay1          '' [] None (Some 1),
     Branch 0xFD 0xFD None K_ARGVAR ''  delay           '' [] None None,
     Branch 0xFC 0xFC None K_U16 ''  call            '' [] None (Some 3),
     Branch 0xFB 0xFB None K_U16 ''  jump            '' [] None (Some 3),
     Branch 0xFA 0xFA None K_U16 (YELLOW @ ''  eqjump          '') RESET (Some (EQJUMP, Opcode_addr)) (Some 3),
     Branch 0xF9 0xF9 None K_U16 (YELLOW @ ''  ltjump          '') RESET (Some (LTJUMP, Opcode_addr)) (Some 3),
     Branch 0xF8 0xF8 None K_U8 ''  loop            '' [] None (Some 2),
     Branch 0xF7 0xF7 None K_MSG ''  loopend         '' [] None (Some 1),
     Branch 0xF6 0xF6 None K_MSG ''  loopbreak       '' [] None (Some 1),
     Branch 0xF5 0xF5 None K_U16 (YELLOW @ ''  gteqjump        '') RESET (Some (GTEQJUMP, Opcode_addr)) (Some 3),
     Branch 0xF4 0xF4 None K_U8 ''  rjump           '' [] None (Some 2),
     Branch 0xF3 0xF3 None K_U8 (YELLOW @ ''  reqjump         '') RESET (Some (REQJUMP, Opcode_addr)) (Some 2),
     Branch 0xF2 0xF2 None K_U8 (YELLOW @ ''  rltjump         '') RESET (Some (RLTJUMP, Opcode_addr)) (Some 2),
     Branch 0xF1 0xF1 None K_U8 ''  reservenotes    '' [] None (Some 2),
     Branch 0xF0 0xF0 None K_U8 ''  releasenotes    '' [] None (Some 2),
     Branch 0xEF 0xEF None K_S16_U8 ''  print3          '' [] None (Some 4),
     Branch 0xDF 0xDF None K_U8 ''  transpose       '' [] None (Some 2),
     Branch 0xDE 0xDE None K_U8 ''  rtranspose      '' [] None (Some 2),
     Branch 0xDD 0xDD None K_U8 ''  tempo           '' [] None (Some 2),
     Branch 0xDC 0xDC None K_U8 ''  addtempo        '' [] None (Some 2),
     Branch 0xDB 0xDB None K_U8 (PINK_218 @ ''  mstrvol         '') RESET (Some (MSTR_VOL, Arg_addr)) (Some 2),
     Branch 0xDA 0xDA None K_FADE ''  fade            '' [] None (Some 3),
     Branch 0xD9 0xD9 None K_U8 ''  mstrexpression  '' [] None (Some 2),
     Branch 0xD7 0xD7 None K_U16 ''  enablechan      '' [] None (Some 3),
     Branch 0xD6 0xD6 None K_U16 ''  disablechan     '' [] None (Some 3),
     Branch 0xD5 0xD5 None K_U8 ''  mutescale       '' [] None (Some 2),
     Branch 0xD4 0xD4 None K_MSG ''  mute            '' [] None (Some 1),
     Branch 0xD3 0xD3 None K_U8 ''  mutebhv         '' [] None (Some 2),
     Branch 0xD2 0xD2 None K_U16 ''  loadshortvel    '' [] None (Some 3),
     Branch 0xD1 0xD1 None K_U16 ''  loadshortgate   '' [] None (Some 3),
     Branch 0xD0 0xD0 None K_U8 ''  notealloc       '' [] None (Some 2),
     Branch 0xCE 0xCE None K_U8 ''  rand            '' [] None (Some 2),
     Branch 0xCD 0xCD None K_U16 ''  dyncall         '' [] None (Some 3),
     Branch 0xCC 0xCC None K_U8 ''  load            '' [] None (Some 2),
     Branch 0xC9 0xC9 None K_U8 ''  and             '' [] None (Some 2),
     Branch 0xC8 0xC8 None K_U8 ''  sub             '' [] None (Some 2),
     Branch 0xC7 0xC7 None K_U8_U16 ''  storeseq        '' [] None (Some 4),
     Branch 0xC6 0xC6 None K_MSG ''  stop            '' [] None (Some 1),
     Branch 0xC5 0xC5 None K_U16 ''  scriptctr        '' [] None (Some 3),
     Branch 0xC4 0xC4 None K_U8x2 ''  callseq         '' [] None (Some 3),
     Branch 0xC3 0xC3 (Some MM) K_U16 ''  mutechan         '' [] None (Some 3),
     Branch 0xC2 0xC2 (Some MM) K_UNK ''  unk_msg           @???? ?? ?? ??'' [] None (Some 3),
     Branch 0x00 0x0F None K_MSG ''  testchan        '' [] None (Some 1),
     Branch 0x40 0x4F None K_MSG ''  stopchan        '' [] None (Some 1),
     Branch 0x50 0x5F None K_MSG ''  subio           '' [] None (Some 1),
     Branch 0x60 0x6F None K_U8x2 ''  loadres         '' [] None (Some 3),
     Branch 0x70 0x7F None K_MSG ''  storeio         '' [] None (Some 1),
     Branch 0x80 0x8F None K_MSG ''  loadio          '' [] None (Some 1),
     Branch 0x90 0x9F None K_U16 ''  loadchan        '' [] None (Some 3),
     Branch 0xA0 0xAF None K_U16 ''  rloadchan       '' [] None (Some 3),
     Branch 0xB0 0xBF None K_U8_U16 ''  loadseq         '' [] None (Some 4)]"

text \<open>
  The condition of a branch on \<^verbatim>\<open>byte\<close>, the string that \<^verbatim>\<open>seq.read(1)\<close> returned: one
  byte, or none at the end of the file, which no branch accepts.
\<close>

definition TAKEN :: "SeqVersion \<Rightarrow> byte list \<Rightarrow> BRANCH \<Rightarrow> bool" where
  "TAKEN version byte br =
     (case byte of
        [b] \<Rightarrow> b_lo br \<le> b \<and> b \<le> b_hi br \<and> (b_gate br = None \<or> b_gate br = Some version)
      | _ \<Rightarrow> False)"

text \<open>
  The reader of a branch, with what the branch keeps of its result: the unpacked values,
  the length (of \<^verbatim>\<open>READ_ARGVAR\<close> only) and the addresses of the arguments.
\<close>

definition CALL_READER ::
  "KIND \<Rightarrow> seqfile \<Rightarrow> nat \<Rightarrow> (error + nat list \<times> nat \<times> nat list) \<times> seqfile" where
  "CALL_READER kind seq addr =
     (case kind of
        K_END \<Rightarrow>
          (case READ_MSG seq addr of
             (Inl e, s) \<Rightarrow> (Inl e, s) | (Inr msg, s) \<Rightarrow> (Inr (msg, 0, []), s))
      | K_MSG \<Rightarrow>
          (case READ_MSG seq addr of
             (Inl e, s) \<Rightarrow> (Inl e, s) | (Inr msg, s) \<Rightarrow> (Inr (msg, 0, []), s))
      | K_ARGVAR \<Rightarrow>
          (let (bs, seq1) = seq_read seq 1;
               arglen = int_from_bytes bs
           in case READ_ARGVAR seq1 addr arglen of
                (Inl e, s) \<Rightarrow> (Inl e, s) | (Inr (msg, n, a), s) \<Rightarrow> (Inr (msg, n, [a]), s))
      | K_U8 \<Rightarrow>
          (case READ_U8 seq addr of
             (Inl e, s) \<Rightarrow> (Inl e, s) | (Inr (msg, a), s) \<Rightarrow> (Inr (msg, 0, [a]), s))
      | K_U8x2 \<Rightarrow>
          (case READ_U8x2 seq addr of
             (Inl e, s) \<Rightarrow> (Inl e, s) | (Inr (msg, a1, a2), s) \<Rightarrow> (Inr (msg, 0, [a1, a2]), s))
      | K_U8_U16 \<Rightarrow>
          (case READ_U8_U16 seq addr of
             (Inl e, s) \<Rightarrow> (Inl e, s) | (Inr (msg, a1, a2), s) \<Rightarrow> (Inr (msg, 0, [a1, a2]), s))
      | K_FADE \<Rightarrow>
          (case READ_U8_U16 seq addr of
             (Inl e, s) \<Rightarrow> (Inl e, s) | (Inr (msg, a1, a2), s) \<Rightarrow> (Inr (msg, 0, [a1, a2]), s))
      | K_U16 \<Rightarrow>
          (case READ_U16 seq addr of
             (Inl e, s) \<Rightarrow> (Inl e, s) | (Inr (msg, a), s) \<Rightarrow> (Inr (msg, 0, [a]), s))
      | K_S16_U8 \<Rightarrow>
          (case READ_S16_U8 seq addr of
             (Inl e, s) \<Rightarrow> (Inl e, s) | (Inr (msg, a1, a2), s) \<Rightarrow> (Inr (msg, 0, [a1, a2]), s))
      | K_UNK \<Rightarrow> (Inr ([], 0, []), seq))"

text \<open>The local state of the loop: the file handle, \<^verbatim>\<open>pos\<close> and the module's lists.\<close>

record PARSER =
  p_seq :: seqfile
  p_pos :: nat
  p_glob :: globals

text \<open>
  The body of a branch.  Branches that append an argument address are branches whose
  reader returns one; were there none, the model appends nothing.
\<close>

definition RUN_BRANCH :: "BRANCH \<Rightarrow> PARSER \<Rightarrow> PARSER step" where
  "RUN_BRANCH br st =
     (if b_kind br = K_UNK
      then Continue (st\<lparr>p_glob := output_append (b_prefix br) (p_glob st),
                        p_pos := p_pos st + (case b_advance br of Some k \<Rightarrow> k | None \<Rightarrow> 0)\<rparr>)
      else
        (let addr = seq_tell (p_seq st) - 1
         in case CALL_READER (b_kind br) (p_seq st) addr of
              (Inl e, seq') \<Rightarrow> Raise e (st\<lparr>p_seq := seq'\<rparr>)
            | (Inr (msg, n, arg_addrs), seq') \<Rightarrow>
                (let msg_string =
                       (if b_kind br = K_FADE then GET_MSG_STRING addr (msg ! 1) [msg ! 2]
                        else GET_MSG_STRING addr (msg ! 0) (tl msg));
                     g1 = output_append (b_prefix br @ msg_string @ b_suffix br) (p_glob st);
                     g2 = (case b_collect br of
                             None \<Rightarrow> g1
                           | Some (l, Opcode_addr) \<Rightarrow> addr_list_append l addr g1
                           | Some (l, Arg_addr) \<Rightarrow>
                               (case arg_addrs of a # _ \<Rightarrow> addr_list_append l a g1 | [] \<Rightarrow> g1))
                 in if b_kind br = K_END then Break (st\<lparr>p_seq := seq', p_glob := g2\<rparr>)
                    else Continue
                      (st\<lparr>p_seq := seq', p_glob := g2,
                          p_pos := p_pos st +
                            (if b_kind br = K_ARGVAR then n
                             else case b_advance br of Some k \<Rightarrow> k | None \<Rightarrow> 0)\<rparr>))))"

text \<open>
  The body of the \<^verbatim>\<open>while\<close> loop: seek to \<^verbatim>\<open>pos\<close>, read one byte, take the first branch
  whose condition holds; the final \<^verbatim>\<open>else\<close> adds 1 to \<^verbatim>\<open>pos\<close>.
\<close>

definition PARSE_SEQ_body :: "SeqVersion \<Rightarrow> PARSER \<Rightarrow> PARSER step" where
  "PARSE_SEQ_body version st =
     (let seq1 = SEEK_ADDR (p_seq st) (p_pos st);
          (byte, seq2) = seq_read seq1 1
      in case find (TAKEN version byte) BRANCHES of
           Some br \<Rightarrow> RUN_BRANCH br (st\<lparr>p_seq := seq2\<rparr>)
         | None \<Rightarrow> Continue (st\<lparr>p_seq := seq2, p_pos := p_pos st + 1\<rparr>))"

text \<open>
  The loop ends when the read in its condition returns nothing.  It always ends: \<^verbatim>\<open>pos\<close>
  grows in every turn (each branch adds at least 1), and once \<^verbatim>\<open>pos\<close> is past the end
  of the file the handle is left there and the next condition fails.
\<close>

lemmas file_ops = seq_read_def seq_seek_def seq_tell_def SEEK_ADDR_def Let_def

lemmas READERS =
  READ_MSG_def READ_ARGVAR_def READ_U8_def READ_U8x2_def READ_U8_U16_def READ_U16_def
  READ_S16_U8_def

lemma CALL_READER_content: "content (snd (CALL_READER k f a)) = content f"
  by (cases k) (simp_all add: CALL_READER_def READERS file_ops split: sum.splits prod.splits)

lemma CALL_READER_ARGVAR_n:
  "CALL_READER K_ARGVAR f a = (Inr (msg, n, as), f') \<Longrightarrow> n = 2 \<or> n = 3"
  by (auto simp add: CALL_READER_def READERS file_ops split: sum.splits prod.splits if_splits)

definition WELL_FORMED :: "BRANCH \<Rightarrow> bool" where
  "WELL_FORMED br =
     (b_kind br = K_END \<or> b_kind br = K_ARGVAR \<or>
      (case b_advance br of Some k \<Rightarrow> 1 \<le> k | None \<Rightarrow> False))"

lemma BRANCHES_WELL_FORMED: "list_all WELL_FORMED BRANCHES"
  by (simp add: BRANCHES_def WELL_FORMED_def)

lemma RUN_BRANCH_Continue:
  assumes "WELL_FORMED br" and "RUN_BRANCH br st = Continue st'"
  shows "p_pos st < p_pos st' \<and> content (p_seq st') = content (p_seq st)"
proof (cases "b_kind br = K_UNK")
  case True
  with assms show ?thesis
    by (auto simp add: RUN_BRANCH_def WELL_FORMED_def split: option.splits)
next
  case False
  obtain r f' where r: "CALL_READER (b_kind br) (p_seq st) (seq_tell (p_seq st) - 1) = (r, f')"
    by (cases "CALL_READER (b_kind br) (p_seq st) (seq_tell (p_seq st) - 1)")
  then have c: "content f' = content (p_seq st)"
    using CALL_READER_content [of "b_kind br" "p_seq st" "seq_tell (p_seq st) - 1"] by simp
  show ?thesis
  proof (cases r)
    case (Inl e)
    with assms False r show ?thesis by (simp add: RUN_BRANCH_def Let_def)
  next
    case (Inr v)
    obtain msg n as where v: "v = (msg, n, as)" by (cases v)
    show ?thesis
    proof (cases "b_kind br = K_ARGVAR")
      case True
      with r Inr v have "n = 2 \<or> n = 3" using CALL_READER_ARGVAR_n by metis
      with assms False r Inr v True c show ?thesis
        by (auto simp add: RUN_BRANCH_def Let_def split: if_splits)
    next
      case nv: False
      with assms False r Inr v c show ?thesis
        by (auto simp add: RUN_BRANCH_def Let_def WELL_FORMED_def split: if_splits option.splits)
    qed
  qed
qed

lemma find_TAKEN_Nil: "find (TAKEN version []) brs = None"
  by (induction brs) (simp_all add: TAKEN_def)

lemma PARSE_SEQ_body_Continue:
  assumes "PARSE_SEQ_body version st = Continue st'"
  shows "content (p_seq st') = content (p_seq st) \<and> p_pos st < p_pos st' \<and>
         (p_pos st < length (content (p_seq st)) \<or>
          length (content (p_seq st)) \<le> position (p_seq st'))"
proof (cases "p_pos st < length (content (p_seq st))")
  case True
  show ?thesis
  proof (cases "find (TAKEN version (fst (seq_read (SEEK_ADDR (p_seq st) (p_pos st)) 1))) BRANCHES")
    case None
    with assms True show ?thesis
      by (simp add: PARSE_SEQ_body_def Let_def split: prod.splits) (auto simp add: file_ops)
  next
    case (Some br)
    then have "br \<in> set BRANCHES" by (auto simp add: find_Some_iff)
    then have wf: "WELL_FORMED br" using BRANCHES_WELL_FORMED by (simp add: list_all_iff)
    from assms Some have
      "RUN_BRANCH br (st\<lparr>p_seq := snd (seq_read (SEEK_ADDR (p_seq st) (p_pos st)) 1)\<rparr>) = Continue st'"
      by (simp add: PARSE_SEQ_body_def Let_def split: prod.splits)
    from RUN_BRANCH_Continue [OF wf this] True show ?thesis
      by (simp add: file_ops)
  qed
next
  case False
  then have "fst (seq_read (SEEK_ADDR (p_seq st) (p_pos st)) 1) = []"
    by (simp add: file_ops)
  with assms False show ?thesis
    by (simp add: PARSE_SEQ_body_def Let_def find_TAKEN_Nil split: prod.splits)
       (auto simp add: file_ops)
qed

function PARSE_SEQ_loop :: "SeqVersion \<Rightarrow> PARSER \<Rightarrow> status \<times> PARSER" where
  "PARSE_SEQ_loop version st =
     (let (byte, seq1) = seq_read (p_seq st) 1
      in if byte = [] then (Exhausted, st\<lparr>p_seq := seq1\<rparr>)
         else (case PARSE_SEQ_body version (st\<lparr>p_seq := seq1\<rparr>) of
                 Continue st' \<Rightarrow> PARSE_SEQ_loop version st'
               | Break st' \<Rightarrow> (Ended, st')
               | Raise e st' \<Rightarrow> (Raised e, st')))"
  by pat_completeness auto

termination
proof (relation "measures [\<lambda>(v, st). length (content (p_seq st)) - p_pos st,
    \<lambda>(v, st). if position (p_seq st) < length (content (p_seq st)) then 1 else 0]")
  show "wf (measures [\<lambda>(v, st). length (content (p_seq st)) - p_pos st,
    \<lambda>(v, st). if position (p_seq st) < length (content (p_seq st)) then 1 else 0])"
    by simp
next
  fix version :: SeqVersion and st :: PARSER and x xa y st'
  assume x: "x = seq_read (p_seq st) 1" and xy: "(xa, y) = x" and ne: "xa \<noteq> []"
    and body: "PARSE_SEQ_body version (st\<lparr>p_seq := y\<rparr>) = Continue st'"
  from x xy ne have lt: "position (p_seq st) < length (content (p_seq st))"
    by (auto simp add: file_ops)
  from x xy have cy: "content y = content (p_seq st)"
    by (auto simp add: file_ops)
  from PARSE_SEQ_body_Continue [OF body] cy lt
  show "((version, st'), (version, st)) \<in> measures [\<lambda>(v, st). length (content (p_seq st)) - p_pos st,
    \<lambda>(v, st). if position (p_seq st) < length (content (p_seq st)) then 1 else 0]"
    by auto
qed

declare PARSE_SEQ_loop.simps [simp del]

text \<open>
  \<^verbatim>\<open>PARSE_SEQ(self, seq, version)\<close>: \<^verbatim>\<open>pos\<close> starts at \<^verbatim>\<open>self.pos\<close>, which \<^verbatim>\<open>__init__\<close> sets
  to 0 and nothing assigns again, and one byte is read before the loop.  The result is
  how the loop ended, with the file handle and the lists as the pass left them.
\<close>

definition PARSE_SEQ :: "SeqVersion \<Rightarrow> seqfile \<Rightarrow> globals \<Rightarrow> status \<times> PARSER" where
  "PARSE_SEQ version seq g =
     (let pos = 0;
          (byte, seq1) = seq_read seq 1
      in PARSE_SEQ_loop version \<lparr>p_seq = seq1, p_pos = pos, p_glob = g\<rparr>)"

subsection \<open>The newer script: readers and the table \<^verbatim>\<open>SEQ_MESSAGES\<close>\<close>

record MessageData =
  arg_addr_1 :: "nat option"
  arg_addr_2 :: "nat option"
  msg_byte :: nat
  arg_1 :: "(nat \<times> argsize) option"
  arg_2 :: "(nat \<times> argsize) option"
  msg_pos :: nat

text \<open>
  The defaults of the dataclass.  Its last field is \<^verbatim>\<open>pos\<close> in the source; it is
  \<open>msg_pos\<close> here, to leave the name to the decoder's local variable.
\<close>

definition MessageData_defaults :: MessageData where
  "MessageData_defaults =
     \<lparr>arg_addr_1 = None, arg_addr_2 = None, msg_byte = 0xFF, arg_1 = None, arg_2 = None,
      msg_pos = 2\<rparr>"

definition seek_addr :: "seqfile \<Rightarrow> nat \<Rightarrow> seqfile" where
  "seek_addr seq addr = seq_seek seq addr"

definition read_msg :: "seqfile \<Rightarrow> nat \<Rightarrow> (error + MessageData) \<times> seqfile" where
  "read_msg seq offset =
     (let seq1 = seek_addr seq offset;
          (bs, seq2) = seq_read seq1 1
      in (case struct_unpack [B] bs of
            Inl e \<Rightarrow> Inl e
          | Inr data \<Rightarrow> Inr (MessageData_defaults\<lparr>msg_byte := data ! 0\<rparr>), seq2))"

definition read_argvar :: "seqfile \<Rightarrow> nat \<Rightarrow> nat \<Rightarrow> (error + MessageData) \<times> seqfile" where
  "read_argvar seq offset arglen =
     (let seq1 = seek_addr seq offset;
          arg_addr = seq_tell seq1 + 1
      in if arglen AND 0x80 \<noteq> 0
         then (let (bs, seq2) = seq_read seq1 3
               in (case struct_unpack [B, H] bs of
                     Inl e \<Rightarrow> Inl e
                   | Inr data \<Rightarrow>
                       Inr (MessageData_defaults
                              \<lparr>arg_addr_1 := Some arg_addr, msg_byte := data ! 0,
                               arg_1 := Some (data ! 1, u16), msg_pos := 3\<rparr>), seq2))
         else (let (bs, seq2) = seq_read seq1 2
               in (case struct_unpack [B, B] bs of
                     Inl e \<Rightarrow> Inl e
                   | Inr data \<Rightarrow>
                       Inr (MessageData_defaults
                              \<lparr>arg_addr_1 := Some arg_addr, msg_byte := data ! 0,
                               arg_1 := Some (data ! 1, u8)\<rparr>), seq2)))"

definition read_u8 :: "seqfile \<Rightarrow> nat \<Rightarrow> (error + MessageData) \<times> seqfile" where
  "read_u8 seq offset =
     (let seq1 = seek_addr seq offset;
          arg_addr = seq_tell seq1 + 1;
          (bs, seq2) = seq_read seq1 2
      in (case struct_unpack [B, B] bs of
            Inl e \<Rightarrow> Inl e
          | Inr data \<Rightarrow>
              Inr (MessageData_defaults
                     \<lparr>arg_addr_1 := Some arg_addr, msg_byte := data ! 0,
                      arg_1 := Some (data ! 1, u8)\<rparr>), seq2))"

definition read_u8x2 :: "seqfile \<Rightarrow> nat \<Rightarrow> (error + MessageData) \<times> seqfile" where
  "read_u8x2 seq offset =
     (let seq1 = seek_addr seq offset;
          arg_addr1 = seq_tell seq1 + 1;
          arg_addr2 = seq_tell seq1 + 2;
          (bs, seq2) = seq_read seq1 3
      in (case struct_unpack [B, B, B] bs of
            Inl e \<Rightarrow> Inl e
          | Inr data \<Rightarrow>
              Inr (MessageData_defaults
                     \<lparr>arg_addr_1 := Some arg_addr1, arg_addr_2 := Some arg_addr2,
                      msg_byte := data ! 0, arg_1 := Some (data ! 1, u8),
                      arg_2 := Some (data ! 2, u8)\<rparr>), seq2))"

definition read_u8_u16 :: "seqfile \<Rightarrow> nat \<Rightarrow> (error + MessageData) \<times> seqfile" where
  "read_u8_u16 seq offset =
     (let seq1 = seek_addr seq offset;
          arg_addr1 = seq_tell seq1 + 1;
          arg_addr2 = seq_tell seq1 + 2;
          (bs, seq2) = seq_read seq1 4
      in (case struct_unpack [B, B, H] bs of
            Inl e \<Rightarrow> Inl e
          | Inr data \<Rightarrow>
              Inr (MessageData_defaults
                     \<lparr>arg_addr_1 := Some arg_addr1, arg_addr_2 := Some arg_addr2,
                      msg_byte := data ! 0, arg_1 := Some (data ! 1, u8),
                      arg_2 := Some (data ! 2, u16)\<rparr>), seq2))"

definition read_u16 :: "seqfile \<Rightarrow> nat \<Rightarrow> (error + MessageData) \<times> seqfile" where
  "read_u16 seq offset =
     (let seq1 = seek_addr seq offset;
          arg_addr = seq_tell seq1 + 1;
          (bs, seq2) = seq_read seq1 3
      in (case struct_unpack [B, H] bs of
            Inl e \<Rightarrow> Inl e
          | Inr data \<Rightarrow>
              Inr (MessageData_defaults
                     \<lparr>arg_addr_1 := Some arg_addr, msg_byte := data ! 0,
                      arg_1 := Some (data ! 1, u16)\<rparr>), seq2))"

definition read_s16_u8 :: "seqfile \<Rightarrow> nat \<Rightarrow> (error + MessageData) \<times> seqfile" where
  "read_s16_u8 seq offset =
     (let seq1 = seek_addr seq offset;
          arg_addr1 = seq_tell seq1 + 1;
          arg_addr2 = seq_tell seq1 + 3;
          (bs, seq2) = seq_read seq1 4
      in (case struct_unpack [B, H, B] bs of
            Inl e \<Rightarrow> Inl e
          | Inr data \<Rightarrow>
              Inr (MessageData_defaults
                     \<lparr>arg_addr_1 := Some arg_addr1, arg_addr_2 := Some arg_addr2,
                      msg_byte := data ! 0, arg_1 := Some (data ! 1, s16),
                      arg_2 := Some (data ! 2, u8)\<rparr>), seq2))"

text \<open>
  The \<^verbatim>\<open>read_func\<close> of a table entry is one of the readers, or for opcode \<^verbatim>\<open>0xC2\<close> the
  function \<^verbatim>\<open>lambda seq, addr: (None,)\<close>, which reads nothing and returns a tuple that
  is not a \<^verbatim>\<open>MessageData\<close>.
\<close>

datatype read_func =
  F_read_msg | F_read_argvar | F_read_u8 | F_read_u8x2 | F_read_u8_u16 | F_read_u16
| F_read_s16_u8 | F_lambda_None

datatype msg_data = Data MessageData | None_tuple

datatype SeqMessage =
  SeqMessage (name: string) (read_func: read_func) (byte_size: "nat option")
    (color: "string option") (extra_output_list: "addr_list option")
    (version_check: "SeqVersion option")

definition SEQ_MESSAGES :: "nat \<Rightarrow> SeqMessage option" where
  "SEQ_MESSAGES = map_of (
    [(0xFF, SeqMessage ''end'' F_read_msg (Some 1) None None None),
     (0xFE, SeqMessage ''delay1'' F_read_msg (Some 1) None None None),
     (0xFD, SeqMessage ''delay'' F_read_argvar None None None None),
     (0xFC, SeqMessage ''call'' F_read_u16 (Some 3) None None None),
     (0xFB, SeqMessage ''jump'' F_read_u16 (Some 3) None None None),
     (0xFA, SeqMessage ''eqjump'' F_read_u16 (Some 3) (Some YELLOW) (Some EQJUMP) None),
     (0xF9, SeqMessage ''ltjump'' F_read_u16 (Some 3) (Some YELLOW) (Some LTJUMP) None),
     (0xF8, SeqMessage ''loop'' F_read_u8 (Some 2) None None None),
     (0xF7, SeqMessage ''loopend'' F_read_msg (Some 1) None None None),
     (0xF6, SeqMessage ''loopbreak'' F_read_msg (Some 1) None None None),
     (0xF5, SeqMessage ''gteqjump'' F_read_u16 (Some 3) (Some YELLOW) (Some GTEQJUMP) None),
     (0xF4, SeqMessage ''rjump'' F_read_u8 (Some 2) None None None),
     (0xF3, SeqMessage ''reqjump'' F_read_u8 (Some 2) (Some YELLOW) (Some REQJUMP) None),
     (0xF2, SeqMessage ''rltjump'' F_read_u8 (Some 2) (Some YELLOW) (Some RLTJUMP) None),
     (0xF1, SeqMessage ''reservenotes'' F_read_u8 (Some 2) None None None),
     (0xF0, SeqMessage ''releasenotes'' F_read_u8 (Some 2) None None None),
     (0xEF, SeqMessage ''print3'' F_read_s16_u8 (Some 4) None None None),
     (0xDF, SeqMessage ''transpose'' F_read_u8 (Some 2) None None None),
     (0xDE, SeqMessage ''rtranspose'' F_read_u8 (Some 2) None None None),
     (0xDD, SeqMessage ''tempo'' F_read_u8 (Some 2) None None None),
     (0xDC, SeqMessage ''addtempo'' F_read_u8 (Some 2) None None None),
     (0xDB, SeqMessage ''mstrvol'' F_read_u8 (Some 2) (Some PINK_218) (Some MSTR_VOL) None),
     (0xDA, SeqMessage ''fade'' F_read_u8_u16 (Some 4) None None None),
     (0xD9, SeqMessage ''mstrexpression'' F_read_u8 (Some 2) None None None),
     (0xD7, SeqMessage ''enablechan'' F_read_u16 (Some 3) None None None),
     (0xD6, SeqMessage ''disablechan'' F_read_u16 (Some 3) None None None),
     (0xD5, SeqMessage ''mutescale'' F_read_u8 (Some 2) None None None),
     (0xD4, SeqMessage ''mute'' F_read_msg (Some 1) None None None),
     (0xD3, SeqMessage ''mutebhv'' F_read_u8 (Some 2) None None None),
     (0xD2, SeqMessage ''loadshortvel'' F_read_u16 (Some 3) None None None),
     (0xD1, SeqMessage ''loadshortgate'' F_read_u16 (Some 3) None None None),
     (0xD0, SeqMessage ''notealloc'' F_read_u8 (Some 2) None None None),
     (0xCE, SeqMessage ''rand'' F_read_u8 (Some 2) None None None),
     (0xCD, SeqMessage ''dyncall'' F_read_u16 (Some 3) None None None),
     (0xCC, SeqMessage ''load'' F_read_u8 (Some 2) None None None),
     (0xC9, SeqMessage ''and'' F_read_u8 (Some 2) None None None),
     (0xC8, SeqMessage ''sub'' F_read_u8 (Some 2) None None None),
     (0xC7, SeqMessage ''storeseq'' F_read_u8_u16 (Some 4) None None None),
     (0xC6, SeqMessage ''stop'' F_read_msg (Some 1) None None None),
     (0xC5, SeqMessage ''scriptctr'' F_read_u16 (Some 3) None None None),
     (0xC4, SeqMessage ''callseq'' F_read_u8x2 (Some 3) None None None),
     (0xC3, SeqMessage ''mutechan'' F_read_u16 (Some 3) None None (Some MM)),
     (0xC2, SeqMessage ''unk_msg'' F_lambda_None (Some 3) None None (Some MM))]
    @ map (\<lambda>i. (i, SeqMessage ''testchan'' F_read_msg (Some 1) None None None)) [0x00..<0x10]
    @ map (\<lambda>i. (i, SeqMessage ''stopchan'' F_read_msg (Some 1) None None None)) [0x40..<0x50]
    @ map (\<lambda>i. (i, SeqMessage ''subio'' F_read_msg (Some 1) None None None)) [0x50..<0x60]
    @ map (\<lambda>i. (i, SeqMessage ''loadres'' F_read_u8x2 (Some 3) None None None)) [0x60..<0x70]
    @ map (\<lambda>i. (i, SeqMessage ''storeio'' F_read_msg (Some 1) None None None)) [0x70..<0x80]
    @ map (\<lambda>i. (i, SeqMessage ''loadio'' F_read_msg (Some 1) None None None)) [0x80..<0x90]
    @ map (\<lambda>i. (i, SeqMessage ''loadchan'' F_read_u16 (Some 3) None None None)) [0x90..<0xA0]
    @ map (\<lambda>i. (i, SeqMessage ''rloadchan'' F_read_u16 (Some 3) None None None)) [0xA0..<0xB0]
    @ map (\<lambda>i. (i, SeqMessage ''loadseq'' F_read_u8_u16 (Some 4) None None None)) [0xB0..<0xC0])"

subsection \<open>The newer script: \<^verbatim>\<open>parse_seq\<close>\<close>

text \<open>\<^verbatim>\<open>ord\<close> of a byte string: its one byte, or \<^verbatim>\<open>TypeError\<close>.\<close>

definition py_ord :: "byte list \<Rightarrow> error + nat" where
  "py_ord bs = (case bs of [b] \<Rightarrow> Inr (unat b) | _ \<Rightarrow> Inl TypeError)"

definition call_read_func ::
  "read_func \<Rightarrow> seqfile \<Rightarrow> nat \<Rightarrow> nat \<Rightarrow> (error + msg_data) \<times> seqfile" where
  "call_read_func f seq pos arglen =
     (let wrap = (\<lambda>(r, s). (case r of Inl e \<Rightarrow> Inl e | Inr md \<Rightarrow> Inr (Data md), s))
      in if f = F_read_argvar then wrap (read_argvar seq pos arglen)
         else (case f of
                 F_read_msg \<Rightarrow> wrap (read_msg seq pos)
               | F_read_argvar \<Rightarrow> wrap (read_argvar seq pos arglen)
               | F_read_u8 \<Rightarrow> wrap (read_u8 seq pos)
               | F_read_u8x2 \<Rightarrow> wrap (read_u8x2 seq pos)
               | F_read_u8_u16 \<Rightarrow> wrap (read_u8_u16 seq pos)
               | F_read_u16 \<Rightarrow> wrap (read_u16 seq pos)
               | F_read_s16_u8 \<Rightarrow> wrap (read_s16_u8 seq pos)
               | F_lambda_None \<Rightarrow> (Inr None_tuple, seq)))"

text \<open>
  The body of the \<^verbatim>\<open>while\<close> loop, for the byte that the loop's condition has just read.
  \<^verbatim>\<open>pos\<close> is taken from the handle; nothing seeks back to it, and the assignment to
  \<^verbatim>\<open>pos\<close> at the end of the body is overwritten at the start of the next turn.
  Reading \<^verbatim>\<open>arg_2\<close> of the tuple that the function of opcode \<^verbatim>\<open>0xC2\<close> returns raises
  \<^verbatim>\<open>AttributeError\<close>.  Every entry with an \<^verbatim>\<open>extra_output_list\<close> has a reader that
  sets \<^verbatim>\<open>arg_addr_1\<close>; were it \<^verbatim>\<open>None\<close>, the model appends nothing.
\<close>

definition parse_seq_body :: "SeqVersion \<Rightarrow> byte \<Rightarrow> PARSER \<Rightarrow> PARSER step" where
  "parse_seq_body version b st =
     (let pos = seq_tell (p_seq st) - 1;
          opcode = unat b;
          st0 = st\<lparr>p_pos := pos\<rparr>
      in case SEQ_MESSAGES opcode of
           None \<Rightarrow> Continue st0
         | Some msg \<Rightarrow>
             if (case version_check msg of Some v \<Rightarrow> v \<noteq> version | None \<Rightarrow> False)
             then Continue st0
             else
               (let seq1 = seq_seek (p_seq st) (pos + 1);
                    (bs, seq2) = seq_read seq1 1
                in case py_ord bs of
                     Inl e \<Rightarrow> Raise e (st0\<lparr>p_seq := seq2\<rparr>)
                   | Inr arglen \<Rightarrow>
                       (case call_read_func (read_func msg) seq2 pos arglen of
                          (Inl e, seq3) \<Rightarrow> Raise e (st0\<lparr>p_seq := seq3\<rparr>)
                        | (Inr None_tuple, seq3) \<Rightarrow> Raise AttributeError (st0\<lparr>p_seq := seq3\<rparr>)
                        | (Inr (Data msg_data), seq3) \<Rightarrow>
                            (let msg_string =
                                   (if arg_2 msg_data \<noteq> None
                                    then get_msg_string pos (Some opcode)
                                           [arg_1 msg_data, arg_2 msg_data]
                                    else get_msg_string pos (Some opcode) [arg_1 msg_data]);
                                 color_prefix =
                                   (case color msg of
                                      Some c \<Rightarrow> if c \<noteq> [] then c @ ''  '' else ''  ''
                                    | None \<Rightarrow> ''  '');
                                 reset =
                                   (case color msg of
                                      Some c \<Rightarrow> if c \<noteq> [] then RESET else []
                                    | None \<Rightarrow> []);
                                 msg_string = color_prefix @ ljust 16 (name msg) @ msg_string @ reset;
                                 g1 = output_append msg_string (p_glob st);
                                 g2 = (case extra_output_list msg of
                                         None \<Rightarrow> g1
                                       | Some l \<Rightarrow>
                                           (let g' = (case arg_addr_1 msg_data of
                                                        Some a \<Rightarrow> addr_list_append l a g1
                                                      | None \<Rightarrow> g1)
                                            in case arg_addr_2 msg_data of
                                                 Some a2 \<Rightarrow>
                                                   if a2 \<noteq> 0 then addr_list_append l a2 g' else g'
                                               | None \<Rightarrow> g'))
                             in if opcode = 0xFF
                                then Break (st0\<lparr>p_seq := seq3, p_glob := g2\<rparr>)
                                else Continue
                                  (st0\<lparr>p_seq := seq3, p_glob := g2,
                                       p_pos := pos + (case byte_size msg of
                                                         Some k \<Rightarrow> k
                                                       | None \<Rightarrow> msg_pos msg_data)\<rparr>)))))"

text \<open>
  The loop ends: every turn reads at least the byte of its condition, and nothing in the
  body moves the handle back before it.
\<close>

fun field_size :: "field \<Rightarrow> nat" where
  "field_size B = 1"
| "field_size H = 2"

lemma unpack_fields_length:
  "unpack_fields fmt bs = Some vs \<Longrightarrow> length bs = sum_list (map field_size fmt)"
  by (induction fmt bs arbitrary: vs rule: unpack_fields.induct) auto

lemma struct_unpack_length:
  "struct_unpack fmt bs = Inr vs \<Longrightarrow> length bs = sum_list (map field_size fmt)"
  by (auto simp add: struct_unpack_def dest: unpack_fields_length split: option.splits)

lemmas readers =
  read_msg_def read_argvar_def read_u8_def read_u8x2_def read_u8_u16_def read_u16_def
  read_s16_u8_def seek_addr_def

lemma call_read_func_Data:
  assumes "call_read_func f seq pos arglen = (Inr (Data md), seq')"
  shows "content seq' = content seq \<and> pos < position seq'"
  using assms
  by (cases f)
     (auto simp add: call_read_func_def readers file_ops split: sum.splits if_splits
           dest!: struct_unpack_length)


lemma seq_read_one_Cons:
  assumes "seq_read f 1 = (b # bs, y)"
  shows "position f < length (content f) \<and> content y = content f \<and>
         position y = position f + 1 \<and> bs = [] \<and> b = content f ! position f"
proof (cases "position f < length (content f)")
  case True
  then have "drop (position f) (content f) = content f ! position f # drop (Suc (position f)) (content f)"
    by (simp add: Cons_nth_drop_Suc)
  with assms True show ?thesis by (auto simp add: file_ops)
next
  case False
  with assms show ?thesis by (simp add: file_ops)
qed

lemma parse_seq_body_Continue:
  assumes "parse_seq_body version b st = Continue st'"
  shows "content (p_seq st') = content (p_seq st) \<and> position (p_seq st) \<le> position (p_seq st')"
proof (cases "SEQ_MESSAGES (unat b)")
  case None
  with assms show ?thesis by (auto simp add: parse_seq_body_def Let_def)
next
  case (Some msg)
  show ?thesis
  proof (cases "case version_check msg of Some v \<Rightarrow> v \<noteq> version | None \<Rightarrow> False")
    case True
    with assms Some show ?thesis by (auto simp add: parse_seq_body_def Let_def)
  next
    case gate: False
    define pos where "pos = seq_tell (p_seq st) - 1"
    define seq2 where "seq2 = snd (seq_read (seq_seek (p_seq st) (pos + 1)) 1)"
    define bs where "bs = fst (seq_read (seq_seek (p_seq st) (pos + 1)) 1)"
    have c2: "content seq2 = content (p_seq st)"
      by (simp add: seq2_def file_ops)
    show ?thesis
    proof (cases "py_ord bs")
      case (Inl e)
      with assms Some gate show ?thesis
        by (simp add: parse_seq_body_def Let_def pos_def bs_def split: prod.splits)
    next
      case (Inr arglen)
      obtain r seq3 where r: "call_read_func (read_func msg) seq2 pos arglen = (r, seq3)"
        by (cases "call_read_func (read_func msg) seq2 pos arglen")
      show ?thesis
      proof (cases r)
        case e: (Inl e)
        with assms Some gate Inr r show ?thesis
          by (simp add: parse_seq_body_def Let_def pos_def bs_def seq2_def split: prod.splits)
      next
        case v: (Inr v)
        show ?thesis
        proof (cases v)
          case None_tuple
          with assms Some gate Inr r v show ?thesis
            by (simp add: parse_seq_body_def Let_def pos_def bs_def seq2_def split: prod.splits)
        next
          case (Data md)
          with r v have "content seq3 = content seq2 \<and> pos < position seq3"
            using call_read_func_Data by simp
          moreover from assms Some gate Inr r v Data have "p_seq st' = seq3"
            by (auto simp add: parse_seq_body_def Let_def pos_def bs_def seq2_def
                  split: prod.splits if_splits)
          ultimately show ?thesis using c2 by (auto simp add: pos_def seq_tell_def)
        qed
      qed
    qed
  qed
qed

function parse_seq_loop :: "SeqVersion \<Rightarrow> PARSER \<Rightarrow> status \<times> PARSER" where
  "parse_seq_loop version st =
     (let (byte, seq1) = seq_read (p_seq st) 1
      in case byte of
           [] \<Rightarrow> (Exhausted, st\<lparr>p_seq := seq1\<rparr>)
         | b # _ \<Rightarrow>
             (case parse_seq_body version b (st\<lparr>p_seq := seq1\<rparr>) of
                Continue st' \<Rightarrow> parse_seq_loop version st'
              | Break st' \<Rightarrow> (Ended, st')
              | Raise e st' \<Rightarrow> (Raised e, st')))"
  by pat_completeness auto

termination
proof (relation "measure (\<lambda>(v, st). length (content (p_seq st)) - position (p_seq st))")
  show "wf (measure (\<lambda>(v, st). length (content (p_seq st)) - position (p_seq st)))"
    by simp
next
  fix version :: SeqVersion and st :: PARSER and x xa y b bs st'
  assume x: "x = seq_read (p_seq st) 1" and xy: "(xa, y) = x" and ne: "xa = b # bs"
    and body: "parse_seq_body version b (st\<lparr>p_seq := y\<rparr>) = Continue st'"
  from x xy ne have "seq_read (p_seq st) 1 = (b # bs, y)" by simp
  from seq_read_one_Cons [OF this] parse_seq_body_Continue [OF body]
  show "((version, st'), (version, st))
          \<in> measure (\<lambda>(v, st). length (content (p_seq st)) - position (p_seq st))"
    by auto
qed

declare parse_seq_loop.simps [simp del]

text \<open>
  \<^verbatim>\<open>parse_seq(self, seq, version)\<close>: as in the older script one byte is read before the
  loop, but here the loop never seeks back to \<^verbatim>\<open>pos\<close>, so the first byte it decodes is
  the second byte of the file.
\<close>

definition parse_seq :: "SeqVersion \<Rightarrow> seqfile \<Rightarrow> globals \<Rightarrow> status \<times> PARSER" where
  "parse_seq version seq g =
     (let pos = 0;
          (byte, seq1) = seq_read seq 1
      in parse_seq_loop version \<lparr>p_seq = seq1, p_pos = pos, p_glob = g\<rparr>)"

subsection \<open>Patching the file\<close>

text \<open>
  \<^verbatim>\<open>WRITE_BIN\<close>, \<^verbatim>\<open>FIX_JUMP\<close> and \<^verbatim>\<open>FIX_RJUMP\<close> have the same bodies in both scripts.
\<close>

definition WRITE_BIN :: "seqfile \<Rightarrow> nat \<Rightarrow> byte list \<Rightarrow> seqfile" where
  "WRITE_BIN seq addr val = seq_write (seq_seek seq addr) val"

definition FIX_JUMP :: "seqfile \<Rightarrow> nat \<Rightarrow> seqfile" where
  "FIX_JUMP seq addr = seq_write (seq_seek seq addr) [0xFB]"

definition FIX_RJUMP :: "seqfile \<Rightarrow> nat \<Rightarrow> seqfile" where
  "FIX_RJUMP seq addr = seq_write (seq_seek seq addr) [0xF4]"

definition write_bin :: "seqfile \<Rightarrow> nat \<Rightarrow> byte list \<Rightarrow> seqfile" where
  "write_bin seq addr val = seq_write (seq_seek seq addr) val"

definition fix_jump :: "seqfile \<Rightarrow> nat \<Rightarrow> seqfile" where
  "fix_jump seq addr = seq_write (seq_seek seq addr) [0xFB]"

definition fix_rjump :: "seqfile \<Rightarrow> nat \<Rightarrow> seqfile" where
  "fix_rjump seq addr = seq_write (seq_seek seq addr) [0xF4]"

subsection \<open>The volume argument\<close>

text \<open>
  \<^verbatim>\<open>check_vol\<close> turns the command-line string into a \<^verbatim>\<open>float\<close> (a string ending in
  \<^verbatim>\<open>%\<close>) or an \<^verbatim>\<open>int\<close>, and refuses it outside its range; \<^verbatim>\<open>CHECK_INPUT\<close> turns that
  value into one byte.  The model starts from the parsed number; a \<^verbatim>\<open>float\<close> is an exact
  rational here, so rounding, infinities and NaN are outside the model.  \<open>None\<close> is
  \<^verbatim>\<open>parser.error\<close>, which ends the program.
\<close>

datatype pyvalue = PyFloat rat | PyInt int


text \<open>\<^verbatim>\<open>n.to_bytes(1, byteorder='big', signed=False)\<close>.\<close>

definition to_bytes1 :: "int \<Rightarrow> error + byte list" where
  "to_bytes1 n = (if 0 \<le> n \<and> n \<le> 255 then Inr [word_of_int n] else Inl OverflowError)"

definition CHECK_INPUT :: "pyvalue \<Rightarrow> error + byte list" where
  "CHECK_INPUT val =
     (case val of
        PyFloat v \<Rightarrow> (let result = \<lceil>v / 100 * 127\<rceil> in to_bytes1 result)
      | PyInt n \<Rightarrow> to_bytes1 n)"

definition check_input :: "pyvalue \<Rightarrow> error + byte list" where
  "check_input val =
     (case val of
        PyFloat v \<Rightarrow> (let result = \<lceil>v / 100 * 127\<rceil> in to_bytes1 result)
      | PyInt n \<Rightarrow> to_bytes1 n)"

subsection \<open>\<^verbatim>\<open>main\<close>: the mutation phase\<close>

text \<open>
  \<^verbatim>\<open>AUTO_SEQ_EDIT\<close> writes the volume at every address of \<^verbatim>\<open>MSTR_VOL_ADDR\<close>.
\<close>

fun AUTO_SEQ_EDIT :: "pyvalue \<Rightarrow> nat list \<Rightarrow> seqfile \<Rightarrow> error + seqfile" where
  "AUTO_SEQ_EDIT val [] seq = Inr seq"
| "AUTO_SEQ_EDIT val (addr # addrs) seq =
     (case CHECK_INPUT val of
        Inl e \<Rightarrow> Inl e
      | Inr input_vol \<Rightarrow> AUTO_SEQ_EDIT val addrs (WRITE_BIN seq addr input_vol))"

fun auto_seq_edit :: "pyvalue \<Rightarrow> nat list \<Rightarrow> seqfile \<Rightarrow> error + seqfile" where
  "auto_seq_edit val [] seq = Inr seq"
| "auto_seq_edit val (addr # addrs) seq =
     (case check_input val of
        Inl e \<Rightarrow> Inl e
      | Inr input_vol \<Rightarrow> auto_seq_edit val addrs (write_bin seq addr input_vol))"

text \<open>
  The block under \<^verbatim>\<open>if ARG_PARSER.fix_jumps:\<close> of \<^verbatim>\<open>main\<close>, five loops in this order.
  The older script calls \<^verbatim>\<open>FIX_JUMP\<close> in all five; the newer one calls \<^verbatim>\<open>fix_rjump\<close> for
  the two lists of relative jumps.
\<close>

definition MAIN_fix_jumps :: "globals \<Rightarrow> seqfile \<Rightarrow> seqfile" where
  "MAIN_fix_jumps g seq =
     (let seq1 = foldl FIX_JUMP seq (EQJUMP_ADDR g);
          seq2 = foldl FIX_JUMP seq1 (LTJUMP_ADDR g);
          seq3 = foldl FIX_JUMP seq2 (GTEQJUMP_ADDR g);
          seq4 = foldl FIX_JUMP seq3 (REQJUMP_ADDR g);
          seq5 = foldl FIX_JUMP seq4 (RLTJUMP_ADDR g)
      in seq5)"

definition main_fix_jumps :: "globals \<Rightarrow> seqfile \<Rightarrow> seqfile" where
  "main_fix_jumps g seq =
     (let seq1 = foldl fix_jump seq (EQJUMP_ADDR g);
          seq2 = foldl fix_jump seq1 (LTJUMP_ADDR g);
          seq3 = foldl fix_jump seq2 (GTEQJUMP_ADDR g);
          seq4 = foldl fix_rjump seq3 (REQJUMP_ADDR g);
          seq5 = foldl fix_rjump seq4 (RLTJUMP_ADDR g)
      in seq5)"

text \<open>
  \<^verbatim>\<open>main\<close> of each script, from the bytes of the file to the bytes it leaves.  The
  decoding pass runs in a thread of its own: an exception in it ends the pass and is not
  seen by \<^verbatim>\<open>main\<close>, which goes on with the lists as the pass left them.  With more than
  one volume address \<^verbatim>\<open>main\<close> asks what to do; the answers modelled are \<^verbatim>\<open>auto\<close> and
  \<^verbatim>\<open>exit\<close> (\<^verbatim>\<open>manual\<close> reads each value from the terminal).  \<open>MAIN\<close> is \<^verbatim>\<open>main\<close> of the
  older script.
\<close>

datatype answer = Auto | Exit

datatype outcome = Completed seqfile | Exited seqfile | Failed error

definition MAIN :: "SeqVersion \<Rightarrow> pyvalue \<Rightarrow> bool \<Rightarrow> answer \<Rightarrow> byte list \<Rightarrow> outcome" where
  "MAIN game_version val fix_jumps ans bytes =
     (let (status, st) = PARSE_SEQ game_version (open_file bytes) module_globals;
          g = p_glob st;
          seq = p_seq st
      in if length (MSTR_VOL_ADDR g) > 1 \<and> ans = Exit then Exited seq
         else (case (if MSTR_VOL_ADDR g \<noteq> [] then AUTO_SEQ_EDIT val (MSTR_VOL_ADDR g) seq
                     else Inr seq) of
                 Inl e \<Rightarrow> Failed e
               | Inr seq' \<Rightarrow> Completed (if fix_jumps then MAIN_fix_jumps g seq' else seq')))"

definition main :: "SeqVersion \<Rightarrow> pyvalue \<Rightarrow> bool \<Rightarrow> answer \<Rightarrow> byte list \<Rightarrow> outcome" where
  "main game_version val fix_jumps ans bytes =
     (let (status, st) = parse_seq game_version (open_file bytes) module_globals;
          g = p_glob st;
          seq = p_seq st
      in if length (MSTR_VOL_ADDR g) > 1 \<and> ans = Exit then Exited seq
         else (case (if MSTR_VOL_ADDR g \<noteq> [] then auto_seq_edit val (MSTR_VOL_ADDR g) seq
                     else Inr seq) of
                 Inl e \<Rightarrow> Failed e
               | Inr seq' \<Rightarrow> Completed (if fix_jumps then main_fix_jumps g seq' else seq')))"

section \<open>Properties\<close>

subsection \<open>Patching one byte\<close>

lemma seq_write_one:
  assumes "addr < length (content seq)"
  shows "content (seq_write (seq_seek seq addr) [v]) = (content seq)[addr := v]"
  using assms by (simp add: seq_write_def seq_seek_def Let_def upd_conv_take_nth_drop)

text \<open>
  Claim C8.  At an address inside the file, the volume write (\<^verbatim>\<open>WRITE_BIN\<close> with a
  one-byte value) and the jump rewrites (\<^verbatim>\<open>FIX_JUMP\<close>, \<^verbatim>\<open>FIX_RJUMP\<close>), of either script,
  replace the byte at that address and nothing else: the bytes of the file afterwards
  are the bytes before with position \<open>addr\<close> updated, and the length is the same.
\<close>

theorem patch_changes_only_addr:
  assumes "addr < length (content seq)"
  shows "content (WRITE_BIN seq addr [v]) = (content seq)[addr := v] \<and>
         content (write_bin seq addr [v]) = (content seq)[addr := v] \<and>
         content (FIX_JUMP seq addr) = (content seq)[addr := 0xFB] \<and>
         content (fix_jump seq addr) = (content seq)[addr := 0xFB] \<and>
         content (FIX_RJUMP seq addr) = (content seq)[addr := 0xF4] \<and>
         content (fix_rjump seq addr) = (content seq)[addr := 0xF4] \<and>
         length (content (WRITE_BIN seq addr [v])) = length (content seq) \<and>
         length (content (write_bin seq addr [v])) = length (content seq) \<and>
         length (content (FIX_JUMP seq addr)) = length (content seq) \<and>
         length (content (fix_jump seq addr)) = length (content seq) \<and>
         length (content (FIX_RJUMP seq addr)) = length (content seq) \<and>
         length (content (fix_rjump seq addr)) = length (content seq)"
  using assms
  by (simp add: WRITE_BIN_def write_bin_def FIX_JUMP_def fix_jump_def FIX_RJUMP_def
        fix_rjump_def seq_write_one)

theorem patch_changes_only_addr_witness:
  "(1::nat) < length (content (open_file [0xDB, 0x40, 0xFF])) \<and>
   content (WRITE_BIN (open_file [0xDB, 0x40, 0xFF]) 1 [0x7F]) = [0xDB, 0x7F, 0xFF] \<and>
   content (fix_rjump (open_file [0xDB, 0x40, 0xFF]) 1) = [0xDB, 0xF4, 0xFF]"
  using patch_changes_only_addr [of 1 "open_file [0xDB, 0x40, 0xFF]" "0x7F"]
  by (simp add: open_file_def)

subsection \<open>The volume argument\<close>




subsection \<open>Formatting an address\<close>

lemma upper_hex_digit:
  assumes "d < 16"
  shows "upper_char (hex_digit d) = HEX_digit d"
proof -
  have "map (\<lambda>d. upper_char (hex_digit d)) [0..<16] = map HEX_digit [0..<16]"
    by code_simp
  then have "map (\<lambda>d. upper_char (hex_digit d)) [0..<16] ! d = map HEX_digit [0..<16] ! d"
    by (rule arg_cong)
  with assms show ?thesis by simp
qed

lemma upper_hex_lower: "upper (hex_lower n) = hex_upper n"
proof (induction n rule: hex_lower.induct)
  case (1 n)
  show ?case
  proof (cases "n < 16")
    case True
    then show ?thesis
      by (simp add: hex_lower.simps [of n] hex_upper.simps [of n] upper_def upper_hex_digit)
  next
    case False
    with 1 have "upper (hex_lower (n div 16)) = hex_upper (n div 16)" by simp
    with False show ?thesis
      by (simp add: hex_lower.simps [of n] hex_upper.simps [of n] upper_def upper_hex_digit)
  qed
qed

lemma hex_upper_1: "n < 16 \<Longrightarrow> hex_upper n = [HEX_digit n]"
  by (simp add: hex_upper.simps [of n])

lemma hex_upper_2:
  assumes "16 \<le> n" and "n < 256"
  shows "hex_upper n = [HEX_digit (n div 16), HEX_digit (n mod 16)]"
proof -
  from assms have "n div 16 < 16" by arith
  with assms show ?thesis by (simp add: hex_upper.simps [of n] hex_upper_1)
qed

lemma hex_upper_3:
  assumes "256 \<le> n" and "n < 4096"
  shows "hex_upper n = [HEX_digit (n div 256), HEX_digit (n div 16 mod 16), HEX_digit (n mod 16)]"
proof -
  from assms have "16 \<le> n div 16" "n div 16 < 256" by arith+
  moreover have "n div 16 div 16 = n div 256" by (simp add: div_mult2_eq [symmetric])
  ultimately
  show ?thesis using assms by (simp add: hex_upper.simps [of n] hex_upper_2)
qed

lemma hex_upper_4:
  assumes "4096 \<le> n" and "n < 65536"
  shows "hex_upper n = [HEX_digit (n div 4096), HEX_digit (n div 256 mod 16),
                        HEX_digit (n div 16 mod 16), HEX_digit (n mod 16)]"
proof -
  from assms have "256 \<le> n div 16" "n div 16 < 4096" by arith+
  moreover have "n div 16 div 256 = n div 4096" "n div 16 div 16 mod 16 = n div 256 mod 16"
    by (simp_all add: div_mult2_eq [symmetric])
  ultimately show ?thesis using assms by (simp add: hex_upper.simps [of n] hex_upper_3)
qed

lemma hex_upper_padded:
  assumes "addr \<le> 0xFFFF"
  shows "replicate (4 - length (hex_upper addr)) (CHR ''0'') @ hex_upper addr =
         map HEX_digit [addr div 4096, addr div 256 mod 16, addr div 16 mod 16, addr mod 16]"
proof -
  have z: "HEX_digit 0 = CHR ''0''" by (simp add: HEX_digit_def)
  have r: "replicate 3 (CHR ''0'') = ''000''" "replicate 2 (CHR ''0'') = ''00''"
    by (simp_all add: numeral_3_eq_3 numeral_2_eq_2)
  consider "addr < 16" | "16 \<le> addr" "addr < 256" | "256 \<le> addr" "addr < 4096"
    | "4096 \<le> addr" "addr < 65536"
    using assms by linarith
  then show ?thesis
  proof cases
    case 1
    then have "addr div 4096 = 0" "addr div 256 mod 16 = 0" "addr div 16 mod 16 = 0"
      "addr mod 16 = addr" by simp_all
    with 1 show ?thesis by (simp add: hex_upper_1 z r)
  next
    case 2
    then have "addr div 4096 = 0" "addr div 256 mod 16 = 0" "addr div 16 mod 16 = addr div 16"
      by simp_all
    with 2 show ?thesis by (simp add: hex_upper_2 z r)
  next
    case 3
    then have "addr div 4096 = 0" "addr div 256 mod 16 = addr div 256" by simp_all
    with 3 show ?thesis by (simp add: hex_upper_3 z)
  next
    case 4
    then show ?thesis by (simp add: hex_upper_4)
  qed
qed

lemma format_addr_digits:
  assumes "addr \<le> 0xFFFF"
  shows "format_addr addr =
         CHR ''@'' # map HEX_digit [addr div 4096, addr div 256 mod 16, addr div 16 mod 16, addr mod 16]"
  using hex_upper_padded [OF assms]
  by (simp add: format_addr_def format_X_def last_chars_def Let_def)

lemma upper_append: "upper (s @ t) = upper s @ upper t"
  by (simp add: upper_def)

lemma upper_HEX_ADDR:
  assumes "addr \<le> 0xFFFF"
  shows "upper (HEX_ADDR addr) =
         CHR ''@'' # map HEX_digit [addr div 4096, addr div 256 mod 16, addr div 16 mod 16, addr mod 16]"
proof -
  have z: "HEX_digit 0 = CHR ''0''" by (simp add: HEX_digit_def)
  have at: "upper ''@'' = ''@''" "upper ''@0'' = ''@0''" "upper ''@00'' = ''@00''"
    "upper ''@000'' = ''@000''"
    by (simp_all add: upper_def upper_char_def)
  consider "addr < 16" | "16 \<le> addr" "addr < 256" | "256 \<le> addr" "addr < 4096"
    | "4096 \<le> addr" "addr < 65536"
    using assms by linarith
  then show ?thesis
  proof cases
    case 1
    then have d: "addr div 4096 = 0" "addr div 256 mod 16 = 0" "addr div 16 mod 16 = 0"
      "addr mod 16 = addr" by simp_all
    from 1 have "HEX_ADDR addr = ''@000'' @ hex_lower addr" by (simp add: HEX_ADDR_def)
    then have "upper (HEX_ADDR addr) = ''@000'' @ hex_upper addr"
      by (simp only: upper_append upper_hex_lower at)
    with 1 d show ?thesis by (simp add: hex_upper_1 z)
  next
    case 2
    then have d: "addr div 4096 = 0" "addr div 256 mod 16 = 0" "addr div 16 mod 16 = addr div 16"
      by simp_all
    from 2 have "HEX_ADDR addr = ''@00'' @ hex_lower addr" by (simp add: HEX_ADDR_def)
    then have "upper (HEX_ADDR addr) = ''@00'' @ hex_upper addr"
      by (simp only: upper_append upper_hex_lower at)
    with 2 d show ?thesis by (simp add: hex_upper_2 z)
  next
    case 3
    then have d: "addr div 4096 = 0" "addr div 256 mod 16 = addr div 256" by simp_all
    from 3 have "HEX_ADDR addr = ''@0'' @ hex_lower addr" by (simp add: HEX_ADDR_def)
    then have "upper (HEX_ADDR addr) = ''@0'' @ hex_upper addr"
      by (simp only: upper_append upper_hex_lower at)
    with 3 d show ?thesis by (simp add: hex_upper_3 z)
  next
    case 4
    from 4 have "HEX_ADDR addr = ''@'' @ hex_lower addr" by (simp add: HEX_ADDR_def)
    then have "upper (HEX_ADDR addr) = ''@'' @ hex_upper addr"
      by (simp only: upper_append upper_hex_lower at)
    with 4 show ?thesis by (simp add: hex_upper_4)
  qed
qed

lemma HEX_digit_in_digits: "k < 16 \<Longrightarrow> HEX_digit k \<in> HEX_DIGITS"
  unfolding HEX_digit_def HEX_DIGITS_def by (rule nth_mem) simp

text \<open>
  Claim C10.  For an address from 0 to \<^verbatim>\<open>0xFFFF\<close> the address that \<^verbatim>\<open>GET_MSG_STRING\<close> of
  the older script builds, after the \<^verbatim>\<open>.upper()\<close> applied to its result, is the string
  that \<^verbatim>\<open>format_addr\<close> of the newer script returns: \<^verbatim>\<open>@\<close> followed by the four
  hexadecimal digits of the address in upper case.  The first five characters of what
  \<^verbatim>\<open>GET_MSG_STRING\<close> returns are that string.
\<close>

theorem format_addr_agrees:
  assumes "addr \<le> 0xFFFF" and "length args \<le> 2"
  shows "upper (HEX_ADDR addr) = format_addr addr \<and>
         take 5 (GET_MSG_STRING addr msg args) = format_addr addr \<and>
         format_addr addr =
           CHR ''@'' # map HEX_digit
             [addr div 4096, addr div 256 mod 16, addr div 16 mod 16, addr mod 16] \<and>
         length (format_addr addr) = 5 \<and>
         list_all (\<lambda>c. c \<in> HEX_DIGITS) (tl (format_addr addr))"
proof -
  note f = format_addr_digits [OF assms(1)]
  note u = upper_HEX_ADDR [OF assms(1)]
  from assms(1) have d: "addr div 4096 < 16" "addr div 256 mod 16 < 16" "addr div 16 mod 16 < 16"
    "addr mod 16 < 16" by simp_all
  have l5: "length (upper (HEX_ADDR addr)) = 5" by (simp add: u)
  from assms(2) have "length args = 0 \<or> length args = 1 \<or> length args = 2" by arith
  then have "take 5 (GET_MSG_STRING addr msg args) = upper (HEX_ADDR addr)"
    by (elim disjE) (simp_all add: GET_MSG_STRING_def Let_def upper_append l5)
  with f u d show ?thesis by (simp add: HEX_digit_in_digits)
qed

theorem format_addr_agrees_witness:
  "(0x1A2B::nat) \<le> 0xFFFF \<and> length [0x40::nat] \<le> 2 \<and>
   upper (HEX_ADDR 0x1A2B) = ''@1A2B'' \<and> format_addr 0x1A2B = ''@1A2B'' \<and>
   take 5 (GET_MSG_STRING 0x1A2B 0xDB [0x40]) = ''@1A2B''"
  using format_addr_agrees [of "0x1A2B" "[0x40]" "0xDB"]
  by (simp add: HEX_digit_def)

subsection \<open>Reading from the file\<close>

lemma take1_drop: "pos < length c \<Longrightarrow> take (Suc 0) (drop pos c) = [c ! pos]"
  by (simp add: Cons_nth_drop_Suc [symmetric])

lemma take2_drop:
  assumes "pos + 1 < length c"
  shows "take 2 (drop pos c) = [c ! pos, c ! (pos + 1)]"
proof -
  from assms have "drop pos c = c ! pos # c ! (pos + 1) # drop (pos + 2) c"
    by (simp add: Cons_nth_drop_Suc [symmetric])
  then show ?thesis by (simp add: numeral_2_eq_2)
qed

lemma take3_drop:
  assumes "pos + 2 < length c"
  shows "take 3 (drop pos c) = [c ! pos, c ! (pos + 1), c ! (pos + 2)]"
proof -
  from assms have "drop pos c = c ! pos # c ! (pos + 1) # c ! (pos + 2) # drop (pos + 3) c"
    by (simp add: Cons_nth_drop_Suc [symmetric] numeral_3_eq_3 numeral_2_eq_2)
  then show ?thesis by (simp add: numeral_3_eq_3)
qed

subsection \<open>The variable-length delay\<close>

lemma READ_ARGVAR_long:
  assumes "pos + 2 < length (content seq)" and "arglen AND 0x80 \<noteq> 0"
  shows "READ_ARGVAR seq pos arglen =
           (Inr ([unat (content seq ! pos),
                  256 * unat (content seq ! (pos + 1)) + unat (content seq ! (pos + 2))],
                 3, pos + 1),
            seq\<lparr>position := pos + 3\<rparr>)"
  using assms
  by (simp add: READ_ARGVAR_def file_ops take3_drop struct_unpack_def)

lemma READ_ARGVAR_short:
  assumes "pos + 1 < length (content seq)" and "arglen AND 0x80 = 0"
  shows "READ_ARGVAR seq pos arglen =
           (Inr ([unat (content seq ! pos), unat (content seq ! (pos + 1))], 2, pos + 1),
            seq\<lparr>position := pos + 2\<rparr>)"
  using assms
  by (simp add: READ_ARGVAR_def file_ops take2_drop struct_unpack_def)

lemma read_argvar_long:
  assumes "pos + 2 < length (content seq)" and "arglen AND 0x80 \<noteq> 0"
  shows "read_argvar seq pos arglen =
           (Inr \<lparr>arg_addr_1 = Some (pos + 1), arg_addr_2 = None,
                 msg_byte = unat (content seq ! pos),
                 arg_1 = Some (256 * unat (content seq ! (pos + 1))
                               + unat (content seq ! (pos + 2)), u16),
                 arg_2 = None, msg_pos = 3\<rparr>,
            seq\<lparr>position := pos + 3\<rparr>)"
  using assms
  by (simp add: read_argvar_def seek_addr_def file_ops take3_drop struct_unpack_def
        MessageData_defaults_def)

lemma read_argvar_short:
  assumes "pos + 1 < length (content seq)" and "arglen AND 0x80 = 0"
  shows "read_argvar seq pos arglen =
           (Inr \<lparr>arg_addr_1 = Some (pos + 1), arg_addr_2 = None,
                 msg_byte = unat (content seq ! pos),
                 arg_1 = Some (unat (content seq ! (pos + 1)), u8),
                 arg_2 = None, msg_pos = 2\<rparr>,
            seq\<lparr>position := pos + 2\<rparr>)"
  using assms
  by (simp add: read_argvar_def seek_addr_def file_ops take2_drop struct_unpack_def
        MessageData_defaults_def)

lemma find_TAKEN_FD:
  "find (TAKEN version [0xFD]) BRANCHES =
     Some (Branch 0xFD 0xFD None K_ARGVAR ''  delay           '' [] None None)"
  by (simp add: BRANCHES_def TAKEN_def)

lemma SEQ_MESSAGES_FD:
  "SEQ_MESSAGES 0xFD = Some (SeqMessage ''delay'' F_read_argvar None None None None)"
  by (simp add: SEQ_MESSAGES_def)

lemma ljust_delay: "ljust 16 ''delay'' = ''delay           ''"
  by code_simp

lemma PARSE_SEQ_body_delay_long:
  assumes "content seq ! pos = 0xFD" and "pos + 2 < length (content seq)"
    and "unat (content seq ! (pos + 1)) AND 0x80 \<noteq> 0"
  shows "PARSE_SEQ_body version \<lparr>p_seq = seq, p_pos = pos, p_glob = g\<rparr> =
           Continue \<lparr>p_seq = seq\<lparr>position := pos + 3\<rparr>, p_pos = pos + 3,
             p_glob = output_append
               (''  delay           '' @ GET_MSG_STRING pos 0xFD
                  [256 * unat (content seq ! (pos + 1)) + unat (content seq ! (pos + 2))]) g\<rparr>"
proof -
  have r: "READ_ARGVAR (seq\<lparr>position := pos + 2\<rparr>) pos (unat (content seq ! (pos + 1))) =
      (Inr ([0xFD, 256 * unat (content seq ! (pos + 1)) + unat (content seq ! (pos + 2))],
            3, pos + 1),
       seq\<lparr>position := pos + 3\<rparr>)"
    using READ_ARGVAR_long [of pos "seq\<lparr>position := pos + 2\<rparr>"
            "unat (content seq ! (pos + 1))"] assms
    by simp
  from assms r have c: "CALL_READER K_ARGVAR (seq\<lparr>position := pos + 1\<rparr>) pos =
      (Inr ([0xFD, 256 * unat (content seq ! (pos + 1)) + unat (content seq ! (pos + 2))],
            3, [pos + 1]),
       seq\<lparr>position := pos + 3\<rparr>)"
    by (simp add: CALL_READER_def seq_read_def take1_drop int_from_bytes_def)
  from assms c show ?thesis
    by (simp add: PARSE_SEQ_body_def SEEK_ADDR_def seq_seek_def seq_read_def take1_drop
          find_TAKEN_FD RUN_BRANCH_def seq_tell_def)
qed

lemma PARSE_SEQ_body_delay_short:
  assumes "content seq ! pos = 0xFD" and "pos + 1 < length (content seq)"
    and "unat (content seq ! (pos + 1)) AND 0x80 = 0"
  shows "PARSE_SEQ_body version \<lparr>p_seq = seq, p_pos = pos, p_glob = g\<rparr> =
           Continue \<lparr>p_seq = seq\<lparr>position := pos + 2\<rparr>, p_pos = pos + 2,
             p_glob = output_append
               (''  delay           '' @ GET_MSG_STRING pos 0xFD
                  [unat (content seq ! (pos + 1))]) g\<rparr>"
proof -
  have r: "READ_ARGVAR (seq\<lparr>position := pos + 2\<rparr>) pos (unat (content seq ! (pos + 1))) =
      (Inr ([0xFD, unat (content seq ! (pos + 1))], 2, pos + 1), seq\<lparr>position := pos + 2\<rparr>)"
    using READ_ARGVAR_short [of pos "seq\<lparr>position := pos + 2\<rparr>"
            "unat (content seq ! (pos + 1))"] assms
    by simp
  from assms r have c: "CALL_READER K_ARGVAR (seq\<lparr>position := pos + 1\<rparr>) pos =
      (Inr ([0xFD, unat (content seq ! (pos + 1))], 2, [pos + 1]),
       seq\<lparr>position := pos + 2\<rparr>)"
    by (simp add: CALL_READER_def seq_read_def take1_drop int_from_bytes_def)
  from assms c show ?thesis
    by (simp add: PARSE_SEQ_body_def SEEK_ADDR_def seq_seek_def seq_read_def take1_drop
          find_TAKEN_FD RUN_BRANCH_def seq_tell_def)
qed

lemma parse_seq_body_delay_long:
  assumes "content seq ! pos = 0xFD" and "pos + 2 < length (content seq)"
    and "unat (content seq ! (pos + 1)) AND 0x80 \<noteq> 0"
  shows "parse_seq_body version (content seq ! pos)
           \<lparr>p_seq = seq\<lparr>position := pos + 1\<rparr>, p_pos = p, p_glob = g\<rparr> =
           Continue \<lparr>p_seq = seq\<lparr>position := pos + 3\<rparr>, p_pos = pos + 3,
             p_glob = output_append
               (''  delay           '' @ get_msg_string pos (Some 0xFD)
                  [Some (256 * unat (content seq ! (pos + 1))
                         + unat (content seq ! (pos + 2)), u16)]) g\<rparr>"
proof -
  have r: "read_argvar (seq\<lparr>position := pos + 2\<rparr>) pos (unat (content seq ! (pos + 1))) =
      (Inr \<lparr>arg_addr_1 = Some (pos + 1), arg_addr_2 = None, msg_byte = 0xFD,
            arg_1 = Some (256 * unat (content seq ! (pos + 1))
                          + unat (content seq ! (pos + 2)), u16),
            arg_2 = None, msg_pos = 3\<rparr>,
       seq\<lparr>position := pos + 3\<rparr>)"
    using read_argvar_long [of pos "seq\<lparr>position := pos + 2\<rparr>"
            "unat (content seq ! (pos + 1))"] assms
    by simp
  from assms r show ?thesis
    by (simp add: parse_seq_body_def seq_tell_def SEQ_MESSAGES_FD seq_seek_def seq_read_def
          take1_drop py_ord_def call_read_func_def ljust_delay)
qed

lemma parse_seq_body_delay_short:
  assumes "content seq ! pos = 0xFD" and "pos + 1 < length (content seq)"
    and "unat (content seq ! (pos + 1)) AND 0x80 = 0"
  shows "parse_seq_body version (content seq ! pos)
           \<lparr>p_seq = seq\<lparr>position := pos + 1\<rparr>, p_pos = p, p_glob = g\<rparr> =
           Continue \<lparr>p_seq = seq\<lparr>position := pos + 2\<rparr>, p_pos = pos + 2,
             p_glob = output_append
               (''  delay           '' @ get_msg_string pos (Some 0xFD)
                  [Some (unat (content seq ! (pos + 1)), u8)]) g\<rparr>"
proof -
  have r: "read_argvar (seq\<lparr>position := pos + 2\<rparr>) pos (unat (content seq ! (pos + 1))) =
      (Inr \<lparr>arg_addr_1 = Some (pos + 1), arg_addr_2 = None, msg_byte = 0xFD,
            arg_1 = Some (unat (content seq ! (pos + 1)), u8),
            arg_2 = None, msg_pos = 2\<rparr>,
       seq\<lparr>position := pos + 2\<rparr>)"
    using read_argvar_short [of pos "seq\<lparr>position := pos + 2\<rparr>"
            "unat (content seq ! (pos + 1))"] assms
    by simp
  from assms r show ?thesis
    by (simp add: parse_seq_body_def seq_tell_def SEQ_MESSAGES_FD seq_seek_def seq_read_def
          take1_drop py_ord_def call_read_func_def ljust_delay)
qed

text \<open>
  Claim C5.  At a delay instruction (opcode \<^verbatim>\<open>0xFD\<close> at offset \<open>pos\<close>, with its bytes
  inside the file) the byte after the opcode decides the length.  If its bit \<^verbatim>\<open>0x80\<close> is
  set, the reader of either script returns one 16-bit big-endian argument made of the
  two bytes after the opcode, and either decoder goes on 3 bytes after \<open>pos\<close>; otherwise
  the reader returns that byte as an 8-bit argument and the decoder goes on 2 bytes
  after \<open>pos\<close>.  In both cases the argument address the reader reports is \<open>pos + 1\<close>.
\<close>

theorem variable_length_delay:
  assumes "content seq ! pos = 0xFD"
    and "pos + (if unat (content seq ! (pos + 1)) AND 0x80 \<noteq> 0 then 2 else 1)
           < length (content seq)"
  shows "if unat (content seq ! (pos + 1)) AND 0x80 \<noteq> 0
         then
           READ_ARGVAR seq pos (unat (content seq ! (pos + 1))) =
             (Inr ([0xFD, 256 * unat (content seq ! (pos + 1)) + unat (content seq ! (pos + 2))],
                   3, pos + 1),
              seq\<lparr>position := pos + 3\<rparr>) \<and>
           read_argvar seq pos (unat (content seq ! (pos + 1))) =
             (Inr \<lparr>arg_addr_1 = Some (pos + 1), arg_addr_2 = None, msg_byte = 0xFD,
                   arg_1 = Some (256 * unat (content seq ! (pos + 1))
                                 + unat (content seq ! (pos + 2)), u16),
                   arg_2 = None, msg_pos = 3\<rparr>,
              seq\<lparr>position := pos + 3\<rparr>) \<and>
           PARSE_SEQ_body version \<lparr>p_seq = seq, p_pos = pos, p_glob = g\<rparr> =
             Continue \<lparr>p_seq = seq\<lparr>position := pos + 3\<rparr>, p_pos = pos + 3,
               p_glob = output_append
                 (''  delay           '' @ GET_MSG_STRING pos 0xFD
                    [256 * unat (content seq ! (pos + 1)) + unat (content seq ! (pos + 2))])
                 g\<rparr> \<and>
           parse_seq_body version (content seq ! pos)
               \<lparr>p_seq = seq\<lparr>position := pos + 1\<rparr>, p_pos = p, p_glob = g\<rparr> =
             Continue \<lparr>p_seq = seq\<lparr>position := pos + 3\<rparr>, p_pos = pos + 3,
               p_glob = output_append
                 (''  delay           '' @ get_msg_string pos (Some 0xFD)
                    [Some (256 * unat (content seq ! (pos + 1))
                           + unat (content seq ! (pos + 2)), u16)]) g\<rparr>
         else
           READ_ARGVAR seq pos (unat (content seq ! (pos + 1))) =
             (Inr ([0xFD, unat (content seq ! (pos + 1))], 2, pos + 1),
              seq\<lparr>position := pos + 2\<rparr>) \<and>
           read_argvar seq pos (unat (content seq ! (pos + 1))) =
             (Inr \<lparr>arg_addr_1 = Some (pos + 1), arg_addr_2 = None, msg_byte = 0xFD,
                   arg_1 = Some (unat (content seq ! (pos + 1)), u8),
                   arg_2 = None, msg_pos = 2\<rparr>,
              seq\<lparr>position := pos + 2\<rparr>) \<and>
           PARSE_SEQ_body version \<lparr>p_seq = seq, p_pos = pos, p_glob = g\<rparr> =
             Continue \<lparr>p_seq = seq\<lparr>position := pos + 2\<rparr>, p_pos = pos + 2,
               p_glob = output_append
                 (''  delay           '' @ GET_MSG_STRING pos 0xFD
                    [unat (content seq ! (pos + 1))]) g\<rparr> \<and>
           parse_seq_body version (content seq ! pos)
               \<lparr>p_seq = seq\<lparr>position := pos + 1\<rparr>, p_pos = p, p_glob = g\<rparr> =
             Continue \<lparr>p_seq = seq\<lparr>position := pos + 2\<rparr>, p_pos = pos + 2,
               p_glob = output_append
                 (''  delay           '' @ get_msg_string pos (Some 0xFD)
                    [Some (unat (content seq ! (pos + 1)), u8)]) g\<rparr>"
proof (cases "unat (content seq ! (pos + 1)) AND 0x80 \<noteq> 0")
  case True
  with assms have len: "pos + 2 < length (content seq)" by simp
  from True show ?thesis
    using READ_ARGVAR_long [OF len True] read_argvar_long [OF len True]
      PARSE_SEQ_body_delay_long [OF assms(1) len True, of version g]
      parse_seq_body_delay_long [OF assms(1) len True, of version p g] assms(1)
    by simp
next
  case False
  then have z: "unat (content seq ! (pos + 1)) AND 0x80 = 0" by simp
  with assms have len: "pos + 1 < length (content seq)" by simp
  from False show ?thesis
    using READ_ARGVAR_short [OF len z] read_argvar_short [OF len z]
      PARSE_SEQ_body_delay_short [OF assms(1) len z, of version g]
      parse_seq_body_delay_short [OF assms(1) len z, of version p g] assms(1)
    by simp
qed

theorem variable_length_delay_witness:
  "content (open_file [0xFD, 0x81, 0x02, 0xFF]) ! 0 = 0xFD \<and>
   READ_ARGVAR (open_file [0xFD, 0x81, 0x02, 0xFF]) 0 0x81 =
     (Inr ([0xFD, 0x8102], 3, 1), \<lparr>content = [0xFD, 0x81, 0x02, 0xFF], position = 3\<rparr>) \<and>
   PARSE_SEQ_body MM \<lparr>p_seq = open_file [0xFD, 0x81, 0x02, 0xFF], p_pos = 0, p_glob = module_globals\<rparr> =
     Continue \<lparr>p_seq = \<lparr>content = [0xFD, 0x81, 0x02, 0xFF], position = 3\<rparr>, p_pos = 3,
       p_glob = output_append (''  delay           '' @ GET_MSG_STRING 0 0xFD [0x8102]) module_globals\<rparr> \<and>
   content (open_file [0xFD, 0x7F, 0xFF]) ! 0 = 0xFD \<and>
   read_argvar (open_file [0xFD, 0x7F, 0xFF]) 0 0x7F =
     (Inr \<lparr>arg_addr_1 = Some 1, arg_addr_2 = None, msg_byte = 0xFD, arg_1 = Some (0x7F, u8),
           arg_2 = None, msg_pos = 2\<rparr>,
      \<lparr>content = [0xFD, 0x7F, 0xFF], position = 2\<rparr>)"
  using variable_length_delay [where seq = "open_file [0xFD, 0x81, 0x02, 0xFF]" and pos = 0
          and version = MM and g = module_globals and p = 0]
    variable_length_delay [where seq = "open_file [0xFD, 0x7F, 0xFF]" and pos = 0
          and version = MM and g = module_globals and p = 0]
  by (simp add: open_file_def)

subsection \<open>Unknown opcodes\<close>

lemma find_TAKEN_unknown:
  "list_all (\<lambda>br. \<not> (b_lo br \<le> b \<and> b \<le> b_hi br)) brs \<Longrightarrow>
   find (TAKEN version [b]) brs = None"
  by (induction brs) (auto simp add: TAKEN_def)

lemma PARSE_SEQ_body_unknown:
  assumes "list_all (\<lambda>br. \<not> (b_lo br \<le> content seq ! pos \<and> content seq ! pos \<le> b_hi br))
             BRANCHES"
    and "pos < length (content seq)"
  shows "PARSE_SEQ_body version \<lparr>p_seq = seq, p_pos = pos, p_glob = g\<rparr> =
           Continue \<lparr>p_seq = seq\<lparr>position := pos + 1\<rparr>, p_pos = pos + 1, p_glob = g\<rparr>"
proof -
  from assms(1) have "find (TAKEN version [content seq ! pos]) BRANCHES = None"
    by (simp add: find_TAKEN_unknown)
  with assms(2) show ?thesis
    by (simp add: PARSE_SEQ_body_def SEEK_ADDR_def seq_seek_def seq_read_def take1_drop)
qed

lemma parse_seq_body_unknown:
  assumes "SEQ_MESSAGES (unat b) = None"
  shows "parse_seq_body version b \<lparr>p_seq = seq\<lparr>position := pos + 1\<rparr>, p_pos = p, p_glob = g\<rparr> =
           Continue \<lparr>p_seq = seq\<lparr>position := pos + 1\<rparr>, p_pos = pos, p_glob = g\<rparr>"
  using assms by (simp add: parse_seq_body_def seq_tell_def)

lemma PARSE_SEQ_loop_unknown:
  assumes "list_all (\<lambda>br. \<not> (b_lo br \<le> content seq ! pos \<and> content seq ! pos \<le> b_hi br))
             BRANCHES"
    and "pos < length (content seq)" and "q < length (content seq)"
  shows "PARSE_SEQ_loop version \<lparr>p_seq = seq\<lparr>position := q\<rparr>, p_pos = pos, p_glob = g\<rparr> =
         PARSE_SEQ_loop version
           \<lparr>p_seq = seq\<lparr>position := pos + 1\<rparr>, p_pos = pos + 1, p_glob = g\<rparr>"
proof -
  from assms(1,2) have
    "PARSE_SEQ_body version \<lparr>p_seq = seq\<lparr>position := q + 1\<rparr>, p_pos = pos, p_glob = g\<rparr> =
       Continue \<lparr>p_seq = seq\<lparr>position := pos + 1\<rparr>, p_pos = pos + 1, p_glob = g\<rparr>"
    using PARSE_SEQ_body_unknown [of "seq\<lparr>position := q + 1\<rparr>" pos version g] by simp
  with assms(3) show ?thesis
    by (subst PARSE_SEQ_loop.simps) (simp add: seq_read_def take1_drop)
qed

lemma parse_seq_loop_unknown:
  assumes "SEQ_MESSAGES (unat (content seq ! pos)) = None" and "pos < length (content seq)"
  shows "parse_seq_loop version \<lparr>p_seq = seq\<lparr>position := pos\<rparr>, p_pos = p, p_glob = g\<rparr> =
         parse_seq_loop version \<lparr>p_seq = seq\<lparr>position := pos + 1\<rparr>, p_pos = pos, p_glob = g\<rparr>"
proof -
  from assms(1) have
    "parse_seq_body version (content seq ! pos)
       \<lparr>p_seq = seq\<lparr>position := pos + 1\<rparr>, p_pos = p, p_glob = g\<rparr> =
       Continue \<lparr>p_seq = seq\<lparr>position := pos + 1\<rparr>, p_pos = pos, p_glob = g\<rparr>"
    by (rule parse_seq_body_unknown)
  with assms(2) show ?thesis
    by (subst parse_seq_loop.simps) (simp add: seq_read_def take1_drop)
qed

text \<open>
  Claim C4.  Let the byte at \<open>pos\<close> be an opcode that no branch of the older decoder
  accepts for either game and that is no key of \<^verbatim>\<open>SEQ_MESSAGES\<close>.  Then one turn of
  either decoder moves one byte on, appends no record and no address (the lists \<open>g\<close>
  are returned as they were), and decoding goes on from the next byte: the rest of the
  pass is the pass started one byte further.  For the older decoder the byte is the one
  at \<^verbatim>\<open>pos\<close> and the handle may stand anywhere before the end of the file; for the newer
  one it is the byte under the handle.
\<close>

theorem unknown_opcode_skipped:
  assumes "list_all (\<lambda>br. \<not> (b_lo br \<le> content seq ! pos \<and> content seq ! pos \<le> b_hi br))
             BRANCHES"
    and "SEQ_MESSAGES (unat (content seq ! pos)) = None"
    and "pos < length (content seq)" and "q < length (content seq)"
  shows "PARSE_SEQ_body version \<lparr>p_seq = seq, p_pos = pos, p_glob = g\<rparr> =
           Continue \<lparr>p_seq = seq\<lparr>position := pos + 1\<rparr>, p_pos = pos + 1, p_glob = g\<rparr> \<and>
         PARSE_SEQ_loop version \<lparr>p_seq = seq\<lparr>position := q\<rparr>, p_pos = pos, p_glob = g\<rparr> =
           PARSE_SEQ_loop version
             \<lparr>p_seq = seq\<lparr>position := pos + 1\<rparr>, p_pos = pos + 1, p_glob = g\<rparr> \<and>
         parse_seq_body version (content seq ! pos)
             \<lparr>p_seq = seq\<lparr>position := pos + 1\<rparr>, p_pos = p, p_glob = g\<rparr> =
           Continue \<lparr>p_seq = seq\<lparr>position := pos + 1\<rparr>, p_pos = pos, p_glob = g\<rparr> \<and>
         parse_seq_loop version \<lparr>p_seq = seq\<lparr>position := pos\<rparr>, p_pos = p, p_glob = g\<rparr> =
           parse_seq_loop version
             \<lparr>p_seq = seq\<lparr>position := pos + 1\<rparr>, p_pos = pos, p_glob = g\<rparr>"
  using PARSE_SEQ_body_unknown [OF assms(1,3)] PARSE_SEQ_loop_unknown [OF assms(1,3,4)]
    parse_seq_body_unknown [OF assms(2)] parse_seq_loop_unknown [OF assms(2,3)]
  by simp

theorem unknown_opcode_skipped_witness:
  "list_all (\<lambda>br. \<not> (b_lo br \<le> content (open_file [0x20, 0xFF]) ! 0
                        \<and> content (open_file [0x20, 0xFF]) ! 0 \<le> b_hi br)) BRANCHES \<and>
   SEQ_MESSAGES (unat (content (open_file [0x20, 0xFF]) ! 0)) = None \<and>
   PARSE_SEQ_body MM \<lparr>p_seq = open_file [0x20, 0xFF], p_pos = 0, p_glob = module_globals\<rparr> =
     Continue \<lparr>p_seq = \<lparr>content = [0x20, 0xFF], position = 1\<rparr>, p_pos = 1,
               p_glob = module_globals\<rparr> \<and>
   parse_seq_loop MM \<lparr>p_seq = open_file [0x20, 0xFF], p_pos = 0, p_glob = module_globals\<rparr> =
     parse_seq_loop MM \<lparr>p_seq = \<lparr>content = [0x20, 0xFF], position = 1\<rparr>, p_pos = 0,
                        p_glob = module_globals\<rparr>"
proof -
  have h1: "list_all (\<lambda>br. \<not> (b_lo br \<le> content (open_file [0x20, 0xFF]) ! 0
                        \<and> content (open_file [0x20, 0xFF]) ! 0 \<le> b_hi br)) BRANCHES"
    by code_simp
  have h2: "SEQ_MESSAGES (unat (content (open_file [0x20, 0xFF]) ! 0)) = None"
    by code_simp
  have h3: "(0::nat) < length (content (open_file [0x20, 0xFF]))"
    by (simp add: open_file_def)
  from unknown_opcode_skipped [OF h1 h2 h3 h3, of MM module_globals 0] h1 h2
  show ?thesis by (simp add: open_file_def)
qed

subsection \<open>A second pass over the same bytes\<close>

text \<open>
  The lists are never cleared, so a pass that starts with lists \<open>g\<close> leaves \<open>g\<close> followed
  by what the same pass appends to empty lists.
\<close>

definition globals_append :: "globals \<Rightarrow> globals \<Rightarrow> globals" where
  "globals_append g h =
     \<lparr>SEQ_HEADER_OUTPUT = SEQ_HEADER_OUTPUT g @ SEQ_HEADER_OUTPUT h,
      MSTR_VOL_ADDR = MSTR_VOL_ADDR g @ MSTR_VOL_ADDR h,
      JUMP_ADDR = JUMP_ADDR g @ JUMP_ADDR h,
      EQJUMP_ADDR = EQJUMP_ADDR g @ EQJUMP_ADDR h,
      LTJUMP_ADDR = LTJUMP_ADDR g @ LTJUMP_ADDR h,
      GTEQJUMP_ADDR = GTEQJUMP_ADDR g @ GTEQJUMP_ADDR h,
      RJUMP_ADDR = RJUMP_ADDR g @ RJUMP_ADDR h,
      REQJUMP_ADDR = REQJUMP_ADDR g @ REQJUMP_ADDR h,
      RLTJUMP_ADDR = RLTJUMP_ADDR g @ RLTJUMP_ADDR h\<rparr>"

definition carried :: "globals \<Rightarrow> PARSER \<Rightarrow> PARSER" where
  "carried g st = st\<lparr>p_glob := globals_append g (p_glob st)\<rparr>"

lemma globals_append_module [simp]: "globals_append g module_globals = g"
  by (simp add: globals_append_def module_globals_def)

lemma output_append_carried [simp]:
  "output_append s (globals_append g h) = globals_append g (output_append s h)"
  by (simp add: output_append_def globals_append_def)

lemma addr_list_append_carried [simp]:
  "addr_list_append l a (globals_append g h) = globals_append g (addr_list_append l a h)"
  by (cases l) (simp_all add: globals_append_def)

lemma carried_simps [simp]:
  "p_seq (carried g st) = p_seq st" "p_pos (carried g st) = p_pos st"
  "p_glob (carried g st) = globals_append g (p_glob st)"
  "carried g (st\<lparr>p_seq := s\<rparr>) = (carried g st)\<lparr>p_seq := s\<rparr>"
  "carried g (st\<lparr>p_pos := n\<rparr>) = (carried g st)\<lparr>p_pos := n\<rparr>"
  by (simp_all add: carried_def)

lemma carried_glob: "(carried g st)\<lparr>p_glob := globals_append g h\<rparr> = carried g (st\<lparr>p_glob := h\<rparr>)"
  by (simp add: carried_def)

lemma RUN_BRANCH_carried:
  "RUN_BRANCH br (carried g st) = map_step (carried g) (RUN_BRANCH br st)"
proof (cases "b_kind br = K_UNK")
  case True
  then show ?thesis by (simp add: RUN_BRANCH_def carried_def)
next
  case False
  obtain r f' where r: "CALL_READER (b_kind br) (p_seq st) (seq_tell (p_seq st) - 1) = (r, f')"
    by (cases "CALL_READER (b_kind br) (p_seq st) (seq_tell (p_seq st) - 1)")
  show ?thesis
  proof (cases r)
    case (Inl e)
    with False r show ?thesis by (simp add: RUN_BRANCH_def Let_def)
  next
    case (Inr v)
    obtain msg n as where v: "v = (msg, n, as)" by (cases v)
    from False r Inr v show ?thesis
      by (simp add: RUN_BRANCH_def Let_def carried_def split: option.splits WHICH.splits list.splits prod.splits)
  qed
qed

lemma PARSE_SEQ_body_carried:
  "PARSE_SEQ_body version (carried g st) = map_step (carried g) (PARSE_SEQ_body version st)"
  by (simp add: PARSE_SEQ_body_def Let_def RUN_BRANCH_carried [symmetric]
        split: prod.splits option.splits)


lemma PARSE_SEQ_loop_carried:
  "PARSE_SEQ_loop version (carried g st) = apsnd (carried g) (PARSE_SEQ_loop version st)"
proof (induction version st rule: PARSE_SEQ_loop.induct)
  case (1 version st)
  show ?case
  proof (cases "fst (seq_read (p_seq st) 1) = []")
    case True
    then have a: "PARSE_SEQ_loop version st = (Exhausted, st\<lparr>p_seq := snd (seq_read (p_seq st) 1)\<rparr>)"
      by (subst PARSE_SEQ_loop.simps) (simp add: case_prod_beta)
    from True have b: "PARSE_SEQ_loop version (carried g st) =
        (Exhausted, carried g (st\<lparr>p_seq := snd (seq_read (p_seq st) 1)\<rparr>))"
      by (subst PARSE_SEQ_loop.simps) (simp add: case_prod_beta carried_def)
    show ?thesis by (simp add: a b)
  next
    case False
    define st1 where "st1 = st\<lparr>p_seq := snd (seq_read (p_seq st) 1)\<rparr>"
    have IH: "PARSE_SEQ_loop version (carried g st') = apsnd (carried g) (PARSE_SEQ_loop version st')"
      if "PARSE_SEQ_body version st1 = Continue st'" for st'
      using "1.IH" [of "seq_read (p_seq st) 1" "fst (seq_read (p_seq st) 1)"
              "snd (seq_read (p_seq st) 1)" st'] False that
      by (simp add: st1_def)
    have a: "PARSE_SEQ_loop version st =
        (case PARSE_SEQ_body version st1 of
           Continue st' \<Rightarrow> PARSE_SEQ_loop version st'
         | Break st' \<Rightarrow> (Ended, st')
         | Raise e st' \<Rightarrow> (Raised e, st'))"
      using False unfolding st1_def
      by (subst PARSE_SEQ_loop.simps) (simp add: case_prod_beta)
    have b: "PARSE_SEQ_loop version (carried g st) =
        (case PARSE_SEQ_body version (carried g st1) of
           Continue st' \<Rightarrow> PARSE_SEQ_loop version st'
         | Break st' \<Rightarrow> (Ended, st')
         | Raise e st' \<Rightarrow> (Raised e, st'))"
      using False unfolding st1_def
      by (subst PARSE_SEQ_loop.simps) (simp add: case_prod_beta)
    show ?thesis
      using IH unfolding a b PARSE_SEQ_body_carried
      by (cases "PARSE_SEQ_body version st1") simp_all
  qed
qed

lemma PARSE_SEQ_carried:
  "PARSE_SEQ version seq g = apsnd (carried g) (PARSE_SEQ version seq module_globals)"
proof -
  have "PARSE_SEQ_loop version (carried g \<lparr>p_seq = s, p_pos = 0, p_glob = module_globals\<rparr>) =
        apsnd (carried g) (PARSE_SEQ_loop version \<lparr>p_seq = s, p_pos = 0, p_glob = module_globals\<rparr>)"
    for s by (rule PARSE_SEQ_loop_carried)
  then have "PARSE_SEQ_loop version \<lparr>p_seq = s, p_pos = 0, p_glob = g\<rparr> =
        apsnd (carried g) (PARSE_SEQ_loop version \<lparr>p_seq = s, p_pos = 0, p_glob = module_globals\<rparr>)"
    for s by (simp add: carried_def)
  then show ?thesis
    by (simp add: PARSE_SEQ_def Let_def case_prod_beta)
qed

lemma parse_seq_body_carried:
  "parse_seq_body version b (carried g st) = map_step (carried g) (parse_seq_body version b st)"
proof (cases "SEQ_MESSAGES (unat b)")
  case None
  then show ?thesis by (simp add: parse_seq_body_def Let_def carried_def)
next
  case (Some msg)
  show ?thesis
  proof (cases "case version_check msg of Some v \<Rightarrow> v \<noteq> version | None \<Rightarrow> False")
    case True
    with Some show ?thesis by (simp add: parse_seq_body_def Let_def carried_def)
  next
    case gate: False
    define pos where "pos = seq_tell (p_seq st) - 1"
    define seq2 where "seq2 = snd (seq_read (seq_seek (p_seq st) (pos + 1)) 1)"
    define bs where "bs = fst (seq_read (seq_seek (p_seq st) (pos + 1)) 1)"
    show ?thesis
    proof (cases "py_ord bs")
      case (Inl e)
      with Some gate show ?thesis
        by (simp add: parse_seq_body_def Let_def pos_def bs_def carried_def case_prod_beta)
    next
      case (Inr arglen)
      obtain r seq3 where r: "call_read_func (read_func msg) seq2 pos arglen = (r, seq3)"
        by (cases "call_read_func (read_func msg) seq2 pos arglen")
      show ?thesis
      proof (cases r)
        case e: (Inl e)
        with Some gate Inr r show ?thesis
          by (simp add: parse_seq_body_def Let_def pos_def bs_def seq2_def carried_def
                case_prod_beta)
      next
        case v: (Inr v)
        show ?thesis
        proof (cases v)
          case None_tuple
          with Some gate Inr r v show ?thesis
            by (simp add: parse_seq_body_def Let_def pos_def bs_def seq2_def carried_def
                  case_prod_beta)
        next
          case (Data md)
          with Some gate Inr r v show ?thesis
            by (simp add: parse_seq_body_def Let_def pos_def bs_def seq2_def carried_def
                  case_prod_beta split: option.splits)
        qed
      qed
    qed
  qed
qed

lemma parse_seq_loop_carried:
  "parse_seq_loop version (carried g st) = apsnd (carried g) (parse_seq_loop version st)"
proof (induction version st rule: parse_seq_loop.induct)
  case (1 version st)
  show ?case
  proof (cases "fst (seq_read (p_seq st) 1)")
    case Nil
    then have a: "parse_seq_loop version st = (Exhausted, st\<lparr>p_seq := snd (seq_read (p_seq st) 1)\<rparr>)"
      by (subst parse_seq_loop.simps) (simp add: case_prod_beta)
    from Nil have b: "parse_seq_loop version (carried g st) =
        (Exhausted, carried g (st\<lparr>p_seq := snd (seq_read (p_seq st) 1)\<rparr>))"
      by (subst parse_seq_loop.simps) (simp add: case_prod_beta carried_def)
    show ?thesis by (simp add: a b)
  next
    case (Cons b bs)
    define st1 where "st1 = st\<lparr>p_seq := snd (seq_read (p_seq st) 1)\<rparr>"
    have IH: "parse_seq_loop version (carried g st') = apsnd (carried g) (parse_seq_loop version st')"
      if "parse_seq_body version b st1 = Continue st'" for st'
      using "1.IH" [of "seq_read (p_seq st) 1" "fst (seq_read (p_seq st) 1)"
              "snd (seq_read (p_seq st) 1)" b bs st'] Cons that
      by (simp add: st1_def)
    have a: "parse_seq_loop version st =
        (case parse_seq_body version b st1 of
           Continue st' \<Rightarrow> parse_seq_loop version st'
         | Break st' \<Rightarrow> (Ended, st')
         | Raise e st' \<Rightarrow> (Raised e, st'))"
      using Cons unfolding st1_def
      by (subst parse_seq_loop.simps) (simp add: case_prod_beta)
    have b: "parse_seq_loop version (carried g st) =
        (case parse_seq_body version b (carried g st1) of
           Continue st' \<Rightarrow> parse_seq_loop version st'
         | Break st' \<Rightarrow> (Ended, st')
         | Raise e st' \<Rightarrow> (Raised e, st'))"
      using Cons unfolding st1_def
      by (subst parse_seq_loop.simps) (simp add: case_prod_beta)
    show ?thesis
      using IH unfolding a b parse_seq_body_carried
      by (cases "parse_seq_body version b st1") simp_all
  qed
qed

lemma parse_seq_carried:
  "parse_seq version seq g = apsnd (carried g) (parse_seq version seq module_globals)"
proof -
  have "parse_seq_loop version (carried g \<lparr>p_seq = s, p_pos = 0, p_glob = module_globals\<rparr>) =
        apsnd (carried g) (parse_seq_loop version \<lparr>p_seq = s, p_pos = 0, p_glob = module_globals\<rparr>)"
    for s by (rule parse_seq_loop_carried)
  then have "parse_seq_loop version \<lparr>p_seq = s, p_pos = 0, p_glob = g\<rparr> =
        apsnd (carried g) (parse_seq_loop version \<lparr>p_seq = s, p_pos = 0, p_glob = module_globals\<rparr>)"
    for s by (simp add: carried_def)
  then show ?thesis
    by (simp add: parse_seq_def Let_def case_prod_beta)
qed


text \<open>
  Claim C6 says that a second pass over the same bytes gives the same lists as the
  first.  It does not when both passes run in one process: after decoding \<^verbatim>\<open>DB 40 FF\<close>
  twice with the older decoder (a fresh handle each time) the volume addresses are
  \<open>[1, 1]\<close> and there are four records; the newer decoder does the same on
  \<^verbatim>\<open>00 DB 40 FF 00\<close>.
\<close>

theorem second_pass_differs:
  "p_glob (snd (PARSE_SEQ MM (open_file [0xDB, 0x40, 0xFF]) module_globals)) =
     module_globals
       \<lparr>SEQ_HEADER_OUTPUT := [PINK_218 @ ''  mstrvol         @0000: DB 40'' @ RESET,
                              ''  end             @0002: FF''],
        MSTR_VOL_ADDR := [1]\<rparr> \<and>
   p_glob (snd (PARSE_SEQ MM (open_file [0xDB, 0x40, 0xFF])
                  (p_glob (snd (PARSE_SEQ MM (open_file [0xDB, 0x40, 0xFF]) module_globals))))) =
     module_globals
       \<lparr>SEQ_HEADER_OUTPUT := [PINK_218 @ ''  mstrvol         @0000: DB 40'' @ RESET,
                              ''  end             @0002: FF'',
                              PINK_218 @ ''  mstrvol         @0000: DB 40'' @ RESET,
                              ''  end             @0002: FF''],
        MSTR_VOL_ADDR := [1, 1]\<rparr> \<and>
   p_glob (snd (PARSE_SEQ MM (open_file [0xDB, 0x40, 0xFF])
                  (p_glob (snd (PARSE_SEQ MM (open_file [0xDB, 0x40, 0xFF]) module_globals)))))
     \<noteq> p_glob (snd (PARSE_SEQ MM (open_file [0xDB, 0x40, 0xFF]) module_globals)) \<and>
   MSTR_VOL_ADDR (p_glob (snd (parse_seq MM (open_file [0x00, 0xDB, 0x40, 0xFF, 0x00])
                                 module_globals))) = [2] \<and>
   MSTR_VOL_ADDR (p_glob (snd (parse_seq MM (open_file [0x00, 0xDB, 0x40, 0xFF, 0x00])
       (p_glob (snd (parse_seq MM (open_file [0x00, 0xDB, 0x40, 0xFF, 0x00])
                       module_globals)))))) = [2, 2]"
  by code_simp

text \<open>
  Claim C6, amended.  A pass of either decoder that starts with lists \<open>g\<close> ends as the
  pass that starts with empty lists does, with the same status, handle and \<^verbatim>\<open>pos\<close>, and
  leaves every list equal to the list of \<open>g\<close> followed by what the pass from empty lists
  leaves.  So two passes that each start from empty lists agree, and a second pass in
  the same process leaves every list of the first pass followed by itself.
\<close>

theorem pass_appends_to_lists:
  "PARSE_SEQ version seq g =
     (case PARSE_SEQ version seq module_globals of
        (status, st) \<Rightarrow> (status, st\<lparr>p_glob := globals_append g (p_glob st)\<rparr>)) \<and>
   parse_seq version seq g =
     (case parse_seq version seq module_globals of
        (status, st) \<Rightarrow> (status, st\<lparr>p_glob := globals_append g (p_glob st)\<rparr>)) \<and>
   p_glob (snd (PARSE_SEQ version seq (p_glob (snd (PARSE_SEQ version seq module_globals))))) =
     globals_append (p_glob (snd (PARSE_SEQ version seq module_globals)))
                    (p_glob (snd (PARSE_SEQ version seq module_globals))) \<and>
   p_glob (snd (parse_seq version seq (p_glob (snd (parse_seq version seq module_globals))))) =
     globals_append (p_glob (snd (parse_seq version seq module_globals)))
                    (p_glob (snd (parse_seq version seq module_globals)))"
proof -
  have a: "PARSE_SEQ version seq h = apsnd (carried h) (PARSE_SEQ version seq module_globals)" for h
    by (rule PARSE_SEQ_carried)
  have b: "parse_seq version seq h = apsnd (carried h) (parse_seq version seq module_globals)" for h
    by (rule parse_seq_carried)
  show ?thesis
    by (subst a, subst b, subst (3) a, subst (3) b)
       (simp add: carried_def apsnd_def map_prod_def case_prod_beta)
qed

subsection \<open>The scenario \<^verbatim>\<open>DB 40 FF\<close>\<close>

text \<open>
  The older decoder on \<^verbatim>\<open>DB 40 FF\<close>, for either game: a volume record at address 0, an
  end record at address 2, the volume addresses \<open>[1]\<close>; and after \<^verbatim>\<open>WRITE_BIN\<close> of
  \<^verbatim>\<open>7F\<close> at address 1 a new pass reports \<^verbatim>\<open>7F\<close>.
\<close>

lemma PARSE_SEQ_DB_40_FF:
  "PARSE_SEQ version (open_file [0xDB, 0x40, 0xFF]) module_globals =
     (Ended,
      \<lparr>p_seq = \<lparr>content = [0xDB, 0x40, 0xFF], position = 3\<rparr>, p_pos = 2,
        p_glob = module_globals
          \<lparr>SEQ_HEADER_OUTPUT := [PINK_218 @ ''  mstrvol         @0000: DB 40'' @ RESET,
                                 ''  end             @0002: FF''],
           MSTR_VOL_ADDR := [1]\<rparr>\<rparr>)"
proof -
  have "PARSE_SEQ MM (open_file [0xDB, 0x40, 0xFF]) module_globals =
     (Ended,
      \<lparr>p_seq = \<lparr>content = [0xDB, 0x40, 0xFF], position = 3\<rparr>, p_pos = 2,
        p_glob = module_globals
          \<lparr>SEQ_HEADER_OUTPUT := [PINK_218 @ ''  mstrvol         @0000: DB 40'' @ RESET,
                                 ''  end             @0002: FF''],
           MSTR_VOL_ADDR := [1]\<rparr>\<rparr>)"
    by code_simp
  moreover have "PARSE_SEQ OOT (open_file [0xDB, 0x40, 0xFF]) module_globals =
     (Ended,
      \<lparr>p_seq = \<lparr>content = [0xDB, 0x40, 0xFF], position = 3\<rparr>, p_pos = 2,
        p_glob = module_globals
          \<lparr>SEQ_HEADER_OUTPUT := [PINK_218 @ ''  mstrvol         @0000: DB 40'' @ RESET,
                                 ''  end             @0002: FF''],
           MSTR_VOL_ADDR := [1]\<rparr>\<rparr>)"
    by code_simp
  ultimately show ?thesis by (cases version) simp_all
qed

lemma PARSE_SEQ_after_patch:
  "PARSE_SEQ version (open_file (content (WRITE_BIN (open_file [0xDB, 0x40, 0xFF]) 1 [0x7F])))
       module_globals =
     (Ended,
      \<lparr>p_seq = \<lparr>content = [0xDB, 0x7F, 0xFF], position = 3\<rparr>, p_pos = 2,
        p_glob = module_globals
          \<lparr>SEQ_HEADER_OUTPUT := [PINK_218 @ ''  mstrvol         @0000: DB 7F'' @ RESET,
                                 ''  end             @0002: FF''],
           MSTR_VOL_ADDR := [1]\<rparr>\<rparr>)"
proof -
  have "PARSE_SEQ MM (open_file (content (WRITE_BIN (open_file [0xDB, 0x40, 0xFF]) 1 [0x7F])))
       module_globals =
     (Ended,
      \<lparr>p_seq = \<lparr>content = [0xDB, 0x7F, 0xFF], position = 3\<rparr>, p_pos = 2,
        p_glob = module_globals
          \<lparr>SEQ_HEADER_OUTPUT := [PINK_218 @ ''  mstrvol         @0000: DB 7F'' @ RESET,
                                 ''  end             @0002: FF''],
           MSTR_VOL_ADDR := [1]\<rparr>\<rparr>)"
    by code_simp
  moreover have "PARSE_SEQ OOT (open_file (content (WRITE_BIN (open_file [0xDB, 0x40, 0xFF]) 1 [0x7F])))
       module_globals =
     (Ended,
      \<lparr>p_seq = \<lparr>content = [0xDB, 0x7F, 0xFF], position = 3\<rparr>, p_pos = 2,
        p_glob = module_globals
          \<lparr>SEQ_HEADER_OUTPUT := [PINK_218 @ ''  mstrvol         @0000: DB 7F'' @ RESET,
                                 ''  end             @0002: FF''],
           MSTR_VOL_ADDR := [1]\<rparr>\<rparr>)"
    by code_simp
  ultimately show ?thesis by (cases version) simp_all
qed

lemma parse_seq_DB_40_FF_MM:
  "parse_seq MM (open_file [0xDB, 0x40, 0xFF]) module_globals =
     (Raised TypeError,
      \<lparr>p_seq = \<lparr>content = [0xDB, 0x40, 0xFF], position = 3\<rparr>, p_pos = 2,
        p_glob = module_globals\<lparr>SEQ_HEADER_OUTPUT := [''  stopchan        @0001: 40'']\<rparr>\<rparr>)"
  by code_simp

lemma parse_seq_DB_40_FF_OOT:
  "parse_seq OOT (open_file [0xDB, 0x40, 0xFF]) module_globals =
     (Raised TypeError,
      \<lparr>p_seq = \<lparr>content = [0xDB, 0x40, 0xFF], position = 3\<rparr>, p_pos = 2,
        p_glob = module_globals\<lparr>SEQ_HEADER_OUTPUT := [''  stopchan        @0001: 40'']\<rparr>\<rparr>)"
  by code_simp

text \<open>
  Claim C1 on the newer decoder.  \<^verbatim>\<open>parse_seq\<close> on \<^verbatim>\<open>DB 40 FF\<close>, for either game, never
  decodes the byte at offset 0: it emits one record, \<^verbatim>\<open>stopchan\<close> at address 1 for the
  byte \<^verbatim>\<open>40\<close>, appends no volume address, and at the \<^verbatim>\<open>FF\<close> that ends the file the read
  of the following byte raises \<^verbatim>\<open>TypeError\<close> before an end record is emitted.
\<close>

theorem parse_seq_misses_first_byte:
  "parse_seq version (open_file [0xDB, 0x40, 0xFF]) module_globals =
     (Raised TypeError,
      \<lparr>p_seq = \<lparr>content = [0xDB, 0x40, 0xFF], position = 3\<rparr>, p_pos = 2,
        p_glob = module_globals\<lparr>SEQ_HEADER_OUTPUT := [''  stopchan        @0001: 40'']\<rparr>\<rparr>)"
  by (cases version) (simp_all only: parse_seq_DB_40_FF_MM parse_seq_DB_40_FF_OOT)

subsection \<open>Fixing jumps\<close>

lemma PARSE_SEQ_F3_05_FF:
  "PARSE_SEQ version (open_file [0xF3, 0x05, 0xFF]) module_globals =
     (Ended,
      \<lparr>p_seq = \<lparr>content = [0xF3, 0x05, 0xFF], position = 3\<rparr>, p_pos = 2,
        p_glob = module_globals
          \<lparr>SEQ_HEADER_OUTPUT := [YELLOW @ ''  reqjump         @0000: F3 5'' @ RESET,
                                 ''  end             @0002: FF''],
           REQJUMP_ADDR := [0]\<rparr>\<rparr>)"
proof -
  have "PARSE_SEQ MM (open_file [0xF3, 0x05, 0xFF]) module_globals =
     (Ended,
      \<lparr>p_seq = \<lparr>content = [0xF3, 0x05, 0xFF], position = 3\<rparr>, p_pos = 2,
        p_glob = module_globals
          \<lparr>SEQ_HEADER_OUTPUT := [YELLOW @ ''  reqjump         @0000: F3 5'' @ RESET,
                                 ''  end             @0002: FF''],
           REQJUMP_ADDR := [0]\<rparr>\<rparr>)"
    by code_simp
  moreover have "PARSE_SEQ OOT (open_file [0xF3, 0x05, 0xFF]) module_globals =
     (Ended,
      \<lparr>p_seq = \<lparr>content = [0xF3, 0x05, 0xFF], position = 3\<rparr>, p_pos = 2,
        p_glob = module_globals
          \<lparr>SEQ_HEADER_OUTPUT := [YELLOW @ ''  reqjump         @0000: F3 5'' @ RESET,
                                 ''  end             @0002: FF''],
           REQJUMP_ADDR := [0]\<rparr>\<rparr>)"
    by code_simp
  ultimately show ?thesis by (cases version) simp_all
qed

text \<open>
  Claim C2 on the older script.  \<^verbatim>\<open>main\<close> with jump fixing on the file \<^verbatim>\<open>F3 05 FF\<close>
  (a relative jump-if-equal, collected at address 0) writes \<^verbatim>\<open>FB\<close>, the absolute jump,
  at address 0, and not \<^verbatim>\<open>F4\<close>.
\<close>

theorem MAIN_writes_FB_on_relative_jump:
  "MAIN version val True ans [0xF3, 0x05, 0xFF] =
     Completed \<lparr>content = [0xFB, 0x05, 0xFF], position = 1\<rparr>"
  by (simp only: MAIN_def PARSE_SEQ_F3_05_FF)
     (simp add: module_globals_def MAIN_fix_jumps_def FIX_JUMP_def seq_write_def seq_seek_def)

text \<open>
  The newer script writes \<^verbatim>\<open>F4\<close> at every address of the two lists of relative
  conditional jumps, whatever the lists hold.
\<close>

lemma fix_rjump_at:
  "a < length (content (fix_rjump seq a)) \<and> content (fix_rjump seq a) ! a = 0xF4"
  by (simp add: fix_rjump_def seq_write_def seq_seek_def Let_def nth_append)

lemma fix_rjump_keeps:
  assumes "a < length (content seq)" and "content seq ! a = 0xF4"
  shows "a < length (content (fix_rjump seq b)) \<and> content (fix_rjump seq b) ! a = 0xF4"
proof (cases "b < length (content seq)")
  case True
  then have "content (fix_rjump seq b) = (content seq)[b := 0xF4]"
    by (simp add: fix_rjump_def seq_write_one)
  with assms True show ?thesis by (simp add: nth_list_update)
next
  case False
  with assms show ?thesis
    by (simp add: fix_rjump_def seq_write_def seq_seek_def Let_def nth_append)
qed

lemma foldl_fix_rjump_keeps:
  assumes "a < length (content seq)" and "content seq ! a = 0xF4"
  shows "a < length (content (foldl fix_rjump seq addrs)) \<and>
         content (foldl fix_rjump seq addrs) ! a = 0xF4"
  using assms
proof (induction addrs arbitrary: seq)
  case Nil
  then show ?case by simp
next
  case (Cons b addrs)
  from fix_rjump_keeps [OF Cons.prems, of b] Cons.IH [of "fix_rjump seq b"]
  show ?case by simp
qed

lemma foldl_fix_rjump_sets:
  assumes "a \<in> set addrs"
  shows "a < length (content (foldl fix_rjump seq addrs)) \<and>
         content (foldl fix_rjump seq addrs) ! a = 0xF4"
  using assms
proof (induction addrs arbitrary: seq)
  case Nil
  then show ?case by simp
next
  case (Cons b addrs)
  show ?case
  proof (cases "a = b")
    case True
    from fix_rjump_at [of b seq] have
      "b < length (content (fix_rjump seq b))" "content (fix_rjump seq b) ! b = 0xF4"
      by simp_all
    from foldl_fix_rjump_keeps [OF this, of addrs] True show ?thesis by simp
  next
    case False
    with Cons.prems have "a \<in> set addrs" by simp
    from Cons.IH [OF this, of "fix_rjump seq b"] show ?thesis by simp
  qed
qed

lemma main_fix_jumps_relative:
  assumes "a \<in> set (REQJUMP_ADDR g) \<union> set (RLTJUMP_ADDR g)"
  shows "a < length (content (main_fix_jumps g seq)) \<and>
         content (main_fix_jumps g seq) ! a = 0xF4"
proof (cases "a \<in> set (RLTJUMP_ADDR g)")
  case True
  then show ?thesis by (simp add: main_fix_jumps_def Let_def foldl_fix_rjump_sets)
next
  case False
  with assms have "a \<in> set (REQJUMP_ADDR g)" by simp
  then show ?thesis
    using foldl_fix_rjump_keeps foldl_fix_rjump_sets
    by (simp add: main_fix_jumps_def Let_def)
qed

text \<open>
  The older script on \<^verbatim>\<open>FA 00 10 FF\<close> with jump fixing: byte 0 becomes \<^verbatim>\<open>FB\<close> and bytes
  1 and 2 stay \<^verbatim>\<open>00 10\<close>.
\<close>

lemma PARSE_SEQ_FA_00_10_FF:
  "PARSE_SEQ version (open_file [0xFA, 0x00, 0x10, 0xFF]) module_globals =
     (Ended,
      \<lparr>p_seq = \<lparr>content = [0xFA, 0x00, 0x10, 0xFF], position = 4\<rparr>, p_pos = 3,
        p_glob = module_globals
          \<lparr>SEQ_HEADER_OUTPUT := [YELLOW @ ''  eqjump          @0000: FA 10'' @ RESET,
                                 ''  end             @0003: FF''],
           EQJUMP_ADDR := [0]\<rparr>\<rparr>)"
proof -
  have "PARSE_SEQ MM (open_file [0xFA, 0x00, 0x10, 0xFF]) module_globals =
     (Ended,
      \<lparr>p_seq = \<lparr>content = [0xFA, 0x00, 0x10, 0xFF], position = 4\<rparr>, p_pos = 3,
        p_glob = module_globals
          \<lparr>SEQ_HEADER_OUTPUT := [YELLOW @ ''  eqjump          @0000: FA 10'' @ RESET,
                                 ''  end             @0003: FF''],
           EQJUMP_ADDR := [0]\<rparr>\<rparr>)"
    by code_simp
  moreover have "PARSE_SEQ OOT (open_file [0xFA, 0x00, 0x10, 0xFF]) module_globals =
     (Ended,
      \<lparr>p_seq = \<lparr>content = [0xFA, 0x00, 0x10, 0xFF], position = 4\<rparr>, p_pos = 3,
        p_glob = module_globals
          \<lparr>SEQ_HEADER_OUTPUT := [YELLOW @ ''  eqjump          @0000: FA 10'' @ RESET,
                                 ''  end             @0003: FF''],
           EQJUMP_ADDR := [0]\<rparr>\<rparr>)"
    by code_simp
  ultimately show ?thesis by (cases version) simp_all
qed

lemma MAIN_rewrites_eqjump:
  "MAIN version val True ans [0xFA, 0x00, 0x10, 0xFF] =
     Completed \<lparr>content = [0xFB, 0x00, 0x10, 0xFF], position = 1\<rparr>"
  by (simp only: MAIN_def PARSE_SEQ_FA_00_10_FF)
     (simp add: module_globals_def MAIN_fix_jumps_def FIX_JUMP_def seq_write_def seq_seek_def)

lemma parse_seq_FA_00_10_FF:
  "parse_seq version (open_file [0xFA, 0x00, 0x10, 0xFF]) module_globals =
     (Raised TypeError,
      \<lparr>p_seq = \<lparr>content = [0xFA, 0x00, 0x10, 0xFF], position = 4\<rparr>, p_pos = 3,
        p_glob = module_globals\<lparr>SEQ_HEADER_OUTPUT := [''  testchan        @0001: 00'']\<rparr>\<rparr>)"
proof -
  have "parse_seq MM (open_file [0xFA, 0x00, 0x10, 0xFF]) module_globals =
     (Raised TypeError,
      \<lparr>p_seq = \<lparr>content = [0xFA, 0x00, 0x10, 0xFF], position = 4\<rparr>, p_pos = 3,
        p_glob = module_globals\<lparr>SEQ_HEADER_OUTPUT := [''  testchan        @0001: 00'']\<rparr>\<rparr>)"
    by code_simp
  moreover have "parse_seq OOT (open_file [0xFA, 0x00, 0x10, 0xFF]) module_globals =
     (Raised TypeError,
      \<lparr>p_seq = \<lparr>content = [0xFA, 0x00, 0x10, 0xFF], position = 4\<rparr>, p_pos = 3,
        p_glob = module_globals\<lparr>SEQ_HEADER_OUTPUT := [''  testchan        @0001: 00'']\<rparr>\<rparr>)"
    by code_simp
  ultimately show ?thesis by (cases version) simp_all
qed

lemma parse_seq_00_FA_00_10_FF_00:
  "parse_seq version (open_file [0x00, 0xFA, 0x00, 0x10, 0xFF, 0x00]) module_globals =
     (Ended,
      \<lparr>p_seq = \<lparr>content = [0x00, 0xFA, 0x00, 0x10, 0xFF, 0x00], position = 5\<rparr>, p_pos = 4,
        p_glob = module_globals
          \<lparr>SEQ_HEADER_OUTPUT := [YELLOW @ ''  eqjump          @0001: FA 0010'' @ RESET,
                                 ''  end             @0004: FF''],
           EQJUMP_ADDR := [2]\<rparr>\<rparr>)"
proof -
  have "parse_seq MM (open_file [0x00, 0xFA, 0x00, 0x10, 0xFF, 0x00]) module_globals =
     (Ended,
      \<lparr>p_seq = \<lparr>content = [0x00, 0xFA, 0x00, 0x10, 0xFF, 0x00], position = 5\<rparr>, p_pos = 4,
        p_glob = module_globals
          \<lparr>SEQ_HEADER_OUTPUT := [YELLOW @ ''  eqjump          @0001: FA 0010'' @ RESET,
                                 ''  end             @0004: FF''],
           EQJUMP_ADDR := [2]\<rparr>\<rparr>)"
    by code_simp
  moreover have "parse_seq OOT (open_file [0x00, 0xFA, 0x00, 0x10, 0xFF, 0x00]) module_globals =
     (Ended,
      \<lparr>p_seq = \<lparr>content = [0x00, 0xFA, 0x00, 0x10, 0xFF, 0x00], position = 5\<rparr>, p_pos = 4,
        p_glob = module_globals
          \<lparr>SEQ_HEADER_OUTPUT := [YELLOW @ ''  eqjump          @0001: FA 0010'' @ RESET,
                                 ''  end             @0004: FF''],
           EQJUMP_ADDR := [2]\<rparr>\<rparr>)"
    by code_simp
  ultimately show ?thesis by (cases version) simp_all
qed

text \<open>
  Claim C3 on the newer script.  \<^verbatim>\<open>main\<close> with jump fixing leaves \<^verbatim>\<open>FA 00 10 FF\<close> as it
  is: the decoder never sees the \<^verbatim>\<open>FA\<close> at offset 0, so no address is collected and
  byte 0 stays \<^verbatim>\<open>FA\<close>.  Where the decoder does see the jump (\<^verbatim>\<open>00 FA 00 10 FF 00\<close>, the
  jump at offset 1) it collects the address of the argument, and \<^verbatim>\<open>main\<close> writes \<^verbatim>\<open>FB\<close>
  over the first byte of the target and leaves the opcode \<^verbatim>\<open>FA\<close>.
\<close>

theorem main_leaves_eqjump:
  "main version val True ans [0xFA, 0x00, 0x10, 0xFF] =
     Completed \<lparr>content = [0xFA, 0x00, 0x10, 0xFF], position = 4\<rparr> \<and>
   main version val True ans [0x00, 0xFA, 0x00, 0x10, 0xFF, 0x00] =
     Completed \<lparr>content = [0x00, 0xFA, 0xFB, 0x10, 0xFF, 0x00], position = 3\<rparr>"
  by (simp only: main_def parse_seq_FA_00_10_FF parse_seq_00_FA_00_10_FF_00)
     (simp add: module_globals_def main_fix_jumps_def fix_jump_def seq_write_def seq_seek_def)

end
